theory Spec2Isabelle
  imports Complex_Main "HOL-Library.AList"
begin

section \<open>Strings\<close>

text \<open>
  JavaScript strings are modelled as \<open>string\<close> (lists of 8-bit characters), so the
  model covers the ASCII part of \<open>toLowerCase\<close>, \<open>trim\<close> and the regular expression
  \<open>\s\<close>.
\<close>

definition is_space :: "char \<Rightarrow> bool" where
  "is_space c = (c \<in> set [CHR '' '', CHR 0x09, CHR 0x0A, CHR 0x0B, CHR 0x0C, CHR 0x0D])"

definition lower_char :: "char \<Rightarrow> char" where
  "lower_char c =
     (let n = (of_char c :: nat) in if 65 \<le> n \<and> n \<le> 90 then char_of (n + 32) else c)"

definition toLowerCase :: "string \<Rightarrow> string" where
  "toLowerCase s = map lower_char s"

definition trim :: "string \<Rightarrow> string" where
  "trim s = rev (dropWhile is_space (rev (dropWhile is_space s)))"

text \<open>
  \<open>s.split(/\s+/)\<close>: the pieces between maximal runs of white space. As in JavaScript,
  a string that starts or ends with white space yields an empty first or last piece, and
  the empty string yields one empty piece.
\<close>

function split_from :: "string \<Rightarrow> string \<Rightarrow> string list" where
  "split_from acc [] = [rev acc]"
| "split_from acc (c # cs) =
     (if is_space c then rev acc # split_from [] (dropWhile is_space cs)
      else split_from (c # acc) cs)"
  by pat_completeness auto
termination
  by (relation "measure (\<lambda>(acc, s). length s)")
     (auto simp: le_imp_less_Suc length_dropWhile_le)

definition split_ws :: "string \<Rightarrow> string list" where
  "split_ws s = split_from [] s"

section \<open>The interest graph (CuriosityEngine)\<close>

datatype memory_type = ShortTerm | LongTerm | Core

text \<open>
  An interest node. \<open>node_keywords\<close> is the field \<open>keywords\<close>, \<open>None\<close> for a node
  stored without it. \<open>promotedAt\<close> and \<open>dreamConnections\<close> are the two fields that the
  consolidator and the dreamer add to a node after its creation; a node that does not
  have them yet carries \<open>None\<close> and \<open>[]\<close>.
\<close>

record interest_node =
  topic :: string
  weight :: real
  connections :: "string list"
  lastActive :: int
  createdAt :: int
  accessCount :: nat
  isCore :: bool
  memoryType :: memory_type
  node_keywords :: "string list option"
  promotedAt :: "int option"
  dreamConnections :: "(string \<times> int) list"

record connection =
  conn_from :: string
  conn_to :: string
  conn_strength :: real
  conn_createdAt :: int

record brain_config =
  decayRate :: real
  decayInterval :: int
  reinforcementFactor :: real
  connectionThreshold :: real
  coreThreshold :: real
  maxShortTermInterests :: nat
  initialWeight :: real
  maxWeight :: real
  minWeight :: real

definition default_brain_config :: brain_config where
  "default_brain_config =
     \<lparr> decayRate = 1 / 10000, decayInterval = 60000, reinforcementFactor = 3 / 10,
       connectionThreshold = 2 / 10, coreThreshold = 7 / 10, maxShortTermInterests = 50,
       initialWeight = 5 / 10, maxWeight = 1, minWeight = 5 / 100 \<rparr>"

text \<open>
  The engine: \<open>interests\<close> is the JavaScript \<open>Map\<close> from topic to node, kept as an
  association list in insertion order (the order \<open>forEach\<close> visits); \<open>link_log\<close> is
  the array \<open>this.connections\<close>.
\<close>

record brain =
  interests :: "(string \<times> interest_node) list"
  link_log :: "connection list"
  config :: brain_config

definition new_brain :: brain where
  "new_brain = \<lparr> interests = [], link_log = [], config = default_brain_config \<rparr>"

definition stopWords :: "string list" where
  "stopWords = [''the'', ''a'', ''an'', ''and'', ''or'', ''but'', ''in'', ''on'', ''at'',
                ''to'', ''for'', ''of'', ''with'', ''by'']"

definition extractKeywords :: "string \<Rightarrow> string list" where
  "extractKeywords t =
     filter (\<lambda>word. length word > 2 \<and> word \<notin> set stopWords) (split_ws (toLowerCase t))"

text \<open>
  \<open>new Set(xs)\<close> keeps the first occurrence of every element, in order.
\<close>

definition js_set :: "'a list \<Rightarrow> 'a list" where
  "js_set xs = rev (remdups (rev xs))"

text \<open>
  \<open>calculateSimilarity\<close>: the intersection is counted by filtering the first set with
  membership in the second, the union by building the set of the concatenation.
\<close>

definition calculateSimilarity :: "string \<Rightarrow> string \<Rightarrow> real" where
  "calculateSimilarity topic1 topic2 =
     (let keywords1 = js_set (extractKeywords topic1);
          keywords2 = js_set (extractKeywords topic2)
      in if length keywords1 = 0 \<or> length keywords2 = 0 then 0
         else let intersection = length (filter (\<lambda>k. k \<in> set keywords2) keywords1);
                  union = length (js_set (keywords1 @ keywords2))
              in real intersection / real union)"

text \<open>
  \<open>createInterestNode(topic, weight = null)\<close>; \<open>weight || initialWeight\<close> takes the
  initial weight when no weight is given and when the weight given is 0.
\<close>

definition createInterestNode :: "brain_config \<Rightarrow> int \<Rightarrow> string \<Rightarrow> real option \<Rightarrow> interest_node" where
  "createInterestNode cfg now t w =
     \<lparr> topic = trim (toLowerCase t),
       weight = (case w of None \<Rightarrow> initialWeight cfg
                 | Some x \<Rightarrow> if x = 0 then initialWeight cfg else x),
       connections = [],
       lastActive = now,
       createdAt = now,
       accessCount = 1,
       isCore = False,
       memoryType = ShortTerm,
       node_keywords = Some (extractKeywords t),
       promotedAt = None,
       dreamConnections = [] \<rparr>"

text \<open>
  \<open>reinforceInterest(topic, strength)\<close>. The clock is read once per operation: every
  \<open>Date.now()\<close> of one call is the parameter \<open>now\<close>.
\<close>

definition reinforceInterest :: "int \<Rightarrow> string \<Rightarrow> real \<Rightarrow> brain \<Rightarrow> brain" where
  "reinforceInterest now t strength b =
     (case map_of (interests b) t of
        None \<Rightarrow> b
      | Some node \<Rightarrow>
          let cfg = config b;
              g1 = AList.map_entry t
                     (\<lambda>n. n\<lparr> weight := min (weight n + strength) (maxWeight cfg),
                              lastActive := now,
                              accessCount := accessCount n + 1 \<rparr>) (interests b);
              g2 = fold (\<lambda>connectedTopic g.
                       case map_of g connectedTopic of
                         None \<Rightarrow> g
                       | Some _ \<Rightarrow>
                           AList.map_entry connectedTopic
                             (\<lambda>n. n\<lparr> weight := min (weight n + strength * reinforcementFactor cfg)
                                                    (maxWeight cfg),
                                      lastActive := now \<rparr>) g)
                     (connections node) g1
          in b\<lparr> interests := g2 \<rparr>)"

text \<open>\<open>findAndCreateConnections(topic)\<close>: one step of the \<open>forEach\<close> over the map.\<close>

definition connect_step :: "int \<Rightarrow> string \<Rightarrow> string \<Rightarrow> brain \<Rightarrow> brain" where
  "connect_step now t otherTopic b =
     (if otherTopic = t then b
      else let similarity = calculateSimilarity t otherTopic
           in if similarity \<ge> connectionThreshold (config b) then
                let g1 = AList.map_entry t
                           (\<lambda>n. if otherTopic \<in> set (connections n) then n
                                 else n\<lparr> connections := connections n @ [otherTopic] \<rparr>)
                           (interests b);
                    g2 = AList.map_entry otherTopic
                           (\<lambda>n. if t \<in> set (connections n) then n
                                 else n\<lparr> connections := connections n @ [t] \<rparr>) g1;
                    g3 = AList.map_entry otherTopic
                           (\<lambda>n. n\<lparr> weight := min (weight n + 5 / 100) (maxWeight (config b)) \<rparr>) g2
                in b\<lparr> interests := g3,
                       link_log := link_log b @
                         [\<lparr> conn_from = t, conn_to = otherTopic,
                            conn_strength = similarity, conn_createdAt = now \<rparr>] \<rparr>
              else b)"

definition findAndCreateConnections :: "int \<Rightarrow> string \<Rightarrow> brain \<Rightarrow> brain" where
  "findAndCreateConnections now t b =
     (case map_of (interests b) t of
        None \<Rightarrow> b
      | Some node \<Rightarrow> fold (connect_step now t) (map fst (interests b)) b)"

text \<open>\<open>updateCoreStatus()\<close>.\<close>

definition update_core :: "brain_config \<Rightarrow> interest_node \<Rightarrow> interest_node" where
  "update_core cfg node =
     (let wasCore = isCore node;
          node1 = node\<lparr> isCore := (weight node \<ge> coreThreshold cfg) \<rparr>
      in if isCore node1 \<and> \<not> wasCore then node1\<lparr> memoryType := Core \<rparr>
         else if \<not> isCore node1 \<and> memoryType node1 = Core then node1\<lparr> memoryType := LongTerm \<rparr>
         else node1)"

definition updateCoreStatus :: "brain \<Rightarrow> brain" where
  "updateCoreStatus b =
     b\<lparr> interests := map (\<lambda>(t, node). (t, update_core (config b) node)) (interests b) \<rparr>"

text \<open>\<open>removeInterest(topic)\<close>.\<close>

definition removeInterest :: "string \<Rightarrow> brain \<Rightarrow> brain" where
  "removeInterest t b =
     (case map_of (interests b) t of
        None \<Rightarrow> b
      | Some node \<Rightarrow>
          let g1 = fold (\<lambda>connectedTopic g.
                       AList.map_entry connectedTopic
                         (\<lambda>n. n\<lparr> connections := filter (\<lambda>x. x \<noteq> t) (connections n) \<rparr>) g)
                     (connections node) (interests b)
          in b\<lparr> interests := AList.delete t g1,
                 link_log := filter (\<lambda>c. conn_from c \<noteq> t \<and> conn_to c \<noteq> t) (link_log b) \<rparr>)"

text \<open>
  \<open>removeWeakestInterest()\<close>: the scan keeps the first node of strictly smallest weight
  among the nodes that are not core; \<open>if (weakest)\<close> also skips the empty topic.
\<close>

definition weakest_scan :: "(string \<times> interest_node) list \<Rightarrow> string option \<times> real option" where
  "weakest_scan g =
     fold (\<lambda>(t, node) (weakest, minW).
             if \<not> isCore node \<and> (case minW of None \<Rightarrow> True | Some m \<Rightarrow> weight node < m)
             then (Some t, Some (weight node)) else (weakest, minW))
          g (None, None)"

definition removeWeakestInterest :: "brain \<Rightarrow> brain" where
  "removeWeakestInterest b =
     (case fst (weakest_scan (interests b)) of
        None \<Rightarrow> b
      | Some t \<Rightarrow> if t = [] then b else removeInterest t b)"

text \<open>\<open>addInterest(topic, strength = 0.1)\<close>; the node under the topic is returned.\<close>

definition addInterest :: "int \<Rightarrow> string \<Rightarrow> real \<Rightarrow> brain \<Rightarrow> brain" where
  "addInterest now t strength b =
     (let normalizedTopic = trim (toLowerCase t);
          b1 = (if map_of (interests b) normalizedTopic \<noteq> None
                then reinforceInterest now normalizedTopic strength b
                else let b2 = (if length (interests b) \<ge> maxShortTermInterests (config b)
                               then removeWeakestInterest b else b);
                         node = createInterestNode (config b) now t None;
                         b3 = b2\<lparr> interests := interests b2 @ [(normalizedTopic, node)] \<rparr>
                     in findAndCreateConnections now normalizedTopic b3)
      in updateCoreStatus b1)"

definition addInterest_result :: "int \<Rightarrow> string \<Rightarrow> real \<Rightarrow> brain \<Rightarrow> interest_node option" where
  "addInterest_result now t strength b =
     map_of (interests (addInterest now t strength b)) (trim (toLowerCase t))"

text \<open>\<open>applyDecay()\<close>.\<close>

definition decayAmount :: "brain_config \<Rightarrow> int \<Rightarrow> interest_node \<Rightarrow> real" where
  "decayAmount cfg now node =
     (let decayMultiplier = (if isCore node then 1 / 10 else 1);
          memoryMultiplier = (if memoryType node = LongTerm then 3 / 10 else 1);
          age = now - lastActive node
      in decayRate cfg * real_of_int age * decayMultiplier * memoryMultiplier)"

definition decay_node :: "brain_config \<Rightarrow> int \<Rightarrow> interest_node \<Rightarrow> interest_node" where
  "decay_node cfg now node = node\<lparr> weight := max (weight node - decayAmount cfg now node) 0 \<rparr>"

definition applyDecay :: "int \<Rightarrow> brain \<Rightarrow> brain" where
  "applyDecay now b =
     (let decayed = map (\<lambda>(t, node). (t, decay_node (config b) now node)) (interests b);
          toRemove = map fst (filter (\<lambda>(t, node). weight node < minWeight (config b)) decayed);
          b1 = fold removeInterest toRemove (b\<lparr> interests := decayed \<rparr>)
      in updateCoreStatus b1)"

section \<open>Memory consolidation (MemoryConsolidator)\<close>

record memory_config =
  maxShortTermCapacity :: nat
  promotionThreshold :: real
  consolidationInterval :: int
  forgettingCurveBase :: real
  clusterSimilarityThreshold :: real

definition default_memory_config :: memory_config where
  "default_memory_config =
     \<lparr> maxShortTermCapacity = 50, promotionThreshold = 6 / 10,
       consolidationInterval = 6 * 60 * 60 * 1000, forgettingCurveBase = 5 / 10,
       clusterSimilarityThreshold = 3 / 10 \<rparr>"

record promotion_score =
  total :: real
  breakdown_weight :: real
  breakdown_connections :: real
  breakdown_access :: real
  breakdown_recency :: real

text \<open>\<open>scoreForPromotion(interest)\<close>; \<open>Math.log\<close> is the natural logarithm.\<close>

definition scoreForPromotion :: "int \<Rightarrow> interest_node \<Rightarrow> promotion_score" where
  "scoreForPromotion now interest =
     (let MAX_WEIGHT = (1 :: real);
          MAX_CONNECTIONS = (10 :: real);
          MAX_ACCESS = (50 :: real);
          MAX_AGE = (7 * 24 * 60 * 60 * 1000 :: real);
          weightScore = min (weight interest / MAX_WEIGHT) 1;
          connectionScore = min (real (length (connections interest)) / MAX_CONNECTIONS) 1;
          accessScore = min (ln (real (accessCount interest) + 1) / ln (MAX_ACCESS + 1)) 1;
          age = now - lastActive interest;
          recencyScore = max (1 - real_of_int age / MAX_AGE) 0;
          totalScore = weightScore * (30 / 100) + connectionScore * (30 / 100)
                       + accessScore * (20 / 100) + recencyScore * (20 / 100)
      in \<lparr> total = totalScore, breakdown_weight = weightScore,
           breakdown_connections = connectionScore, breakdown_access = accessScore,
           breakdown_recency = recencyScore \<rparr>)"

record consolidation_result =
  promoted :: "(string \<times> promotion_score) list"
  forgotten :: "(string \<times> real) list"
  clustered :: "string list"
  timestamp :: "int option"

text \<open>
  The consolidator. \<open>topicClusters\<close> is a \<open>Map\<close> from cluster name to member topics,
  in insertion order.
\<close>

record memory =
  longTermMemory :: "interest_node list"
  topicClusters :: "(string \<times> string list) list"
  consolidationHistory :: "consolidation_result list"
  memory_cfg :: memory_config

definition new_memory :: memory where
  "new_memory = \<lparr> longTermMemory = [], topicClusters = [], consolidationHistory = [],
                  memory_cfg = default_memory_config \<rparr>"

text \<open>
  \<open>promoteToLongTerm(interest)\<close>: the node is marked in the graph, then merged into the
  first long-term entry of the same topic or appended as a copy. (The copy of the source
  shares its connection array with the node; the model copies the list.)
\<close>

fun merge_existing :: "int \<Rightarrow> interest_node \<Rightarrow> interest_node list \<Rightarrow> interest_node list option" where
  "merge_existing now interest [] = None"
| "merge_existing now interest (m # ms) =
     (if topic m = topic interest
      then Some (m\<lparr> weight := max (weight m) (weight interest),
                     accessCount := accessCount m + accessCount interest,
                     connections := js_set (connections m @ connections interest),
                     lastActive := now \<rparr> # ms)
      else map_option ((#) m) (merge_existing now interest ms))"

definition promoteToLongTerm :: "int \<Rightarrow> string \<Rightarrow> brain \<times> memory \<Rightarrow> brain \<times> memory" where
  "promoteToLongTerm now key bm =
     (case bm of (b, m) \<Rightarrow>
        (case map_of (interests b) key of
           None \<Rightarrow> (b, m)
         | Some node \<Rightarrow>
             let interest = node\<lparr> memoryType := LongTerm, promotedAt := Some now \<rparr>;
                 b1 = b\<lparr> interests := AList.map_entry key (\<lambda>_. interest) (interests b) \<rparr>;
                 ltm = (case merge_existing now interest (longTermMemory m) of
                          Some merged \<Rightarrow> merged
                        | None \<Rightarrow> longTermMemory m @
                            [interest\<lparr> memoryType := LongTerm, promotedAt := Some now \<rparr>])
             in (b1, m\<lparr> longTermMemory := ltm \<rparr>)))"

text \<open>\<open>findBestCluster(memory)\<close> and \<open>clusterMemories()\<close>.\<close>

definition findBestCluster :: "memory_config \<Rightarrow> (string \<times> string list) list \<Rightarrow> interest_node \<Rightarrow> string option" where
  "findBestCluster cfg clusters mem =
     fst (fold (\<lambda>(clusterName, topics) (bestCluster, bestScore).
                  let totalSimilarity = fold (\<lambda>t acc. acc + calculateSimilarity (topic mem) t) topics 0;
                      avgSimilarity = (if length topics > 0
                                       then totalSimilarity / real (length topics) else 0)
                  in if avgSimilarity > clusterSimilarityThreshold cfg \<and> avgSimilarity > bestScore
                     then (Some clusterName, avgSimilarity) else (bestCluster, bestScore))
               clusters (None, 0))"

definition cluster_step :: "memory_config \<Rightarrow> interest_node \<Rightarrow> (string \<times> string list) list \<times> string list
    \<Rightarrow> (string \<times> string list) list \<times> string list" where
  "cluster_step cfg mem st =
     (case st of (clusters, assigned) \<Rightarrow>
        if topic mem \<in> set assigned then (clusters, assigned)
        else
          let found = findBestCluster cfg clusters mem;
              fresh = (case found of None \<Rightarrow> True | Some c \<Rightarrow> c = []);
              clusterName = (if fresh then topic mem else the found);
              clusters1 = (if fresh then AList.update clusterName [] clusters else clusters);
              pulled = fold (\<lambda>connectedTopic (cl, asg).
                               if connectedTopic \<notin> set asg
                               then (cl @ [connectedTopic], asg @ [connectedTopic]) else (cl, asg))
                            (connections mem)
                            ((case map_of clusters1 clusterName of None \<Rightarrow> [] | Some c \<Rightarrow> c)
                               @ [topic mem],
                             assigned @ [topic mem])
          in (AList.update clusterName (fst pulled) clusters1, snd pulled))"

definition clusterMemories :: "memory \<Rightarrow> memory" where
  "clusterMemories m =
     m\<lparr> topicClusters := fst (fold (cluster_step (memory_cfg m)) (longTermMemory m) ([], [])) \<rparr>"

text \<open>
  \<open>consolidate()\<close>. \<open>window.brain\<close> may be missing, in which case an empty result is
  returned at once. Each short-term node of the snapshot is visited under its key.
\<close>

definition consolidate_step :: "int \<Rightarrow> string \<Rightarrow> consolidation_result \<times> brain \<times> memory
    \<Rightarrow> consolidation_result \<times> brain \<times> memory" where
  "consolidate_step now key st =
     (case st of (results, b, m) \<Rightarrow>
        (case map_of (interests b) key of
           None \<Rightarrow> (results, b, m)
         | Some interest \<Rightarrow>
             let score = scoreForPromotion now interest
             in if total score \<ge> promotionThreshold (memory_cfg m) then
                  let bm = promoteToLongTerm now key (b, m)
                  in (results\<lparr> promoted := promoted results @ [(topic interest, score)] \<rparr>,
                      fst bm, snd bm)
                else if weight interest < 1 / 10 then
                  (results\<lparr> forgotten := forgotten results @ [(topic interest, weight interest)] \<rparr>,
                   b, m)
                else (results, b, m)))"

definition consolidate :: "int \<Rightarrow> brain option \<Rightarrow> memory \<Rightarrow> consolidation_result \<times> brain option \<times> memory" where
  "consolidate now wb m =
     (case wb of
        None \<Rightarrow> (\<lparr> promoted = [], forgotten = [], clustered = [], timestamp = None \<rparr>, None, m)
      | Some b \<Rightarrow>
          let results0 = \<lparr> promoted = [], forgotten = [], clustered = [], timestamp = Some now \<rparr>;
              shortTermInterests =
                map fst (filter (\<lambda>(t, node). memoryType node = ShortTerm) (interests b));
              st = fold (consolidate_step now) shortTermInterests (results0, b, m);
              results1 = fst st;
              b1 = fst (snd st);
              m1 = clusterMemories (snd (snd st));
              results2 = results1\<lparr> clustered := map fst (topicClusters m1) \<rparr>
          in (results2, Some b1,
              m1\<lparr> consolidationHistory := consolidationHistory m1 @ [results2] \<rparr>))"

section \<open>Dream replay (DreamReplaySystem)\<close>

text \<open>
  \<open>Math.random()\<close> is an explicit source \<open>rnd :: nat \<Rightarrow> real\<close> read at a counter that
  every draw advances; the functions below take the counter and return the new one.
\<close>

datatype js_error = TypeError | SyntaxError

record dream_config =
  replayChainLength :: nat
  chainsPerDream :: nat
  dreamConnectionThreshold :: real
  serendipityBoost :: real
  dreamDuration :: int

definition default_dream_config :: dream_config where
  "default_dream_config =
     \<lparr> replayChainLength = 5, chainsPerDream = 10, dreamConnectionThreshold = 15 / 100,
       serendipityBoost = 3 / 10, dreamDuration = 5000 \<rparr>"

text \<open>A discovery of the explorer, with the three fields the dreamer reads.\<close>

record discovery =
  disc_id :: string
  disc_keywords :: "string list option"
  searchTopic :: string

record dream_connection =
  dc_from :: string
  dc_to :: string
  similarity :: real
  distance :: nat
  discoveredAt :: int

datatype insight = Theme string nat | Bridge string string string

record dream_session =
  startTime :: int
  chains :: "interest_node list list"
  newConnections :: "dream_connection list"
  strengthenedConnections :: "dream_connection list"
  insights :: "insight list"
  endTime :: "int option"

record dreamer =
  dreamLog :: "dream_session list"
  discoveredConnections :: "(string \<times> string \<times> real \<times> int) list"
  isDreaming :: bool
  dream_cfg :: dream_config

definition new_dreamer :: dreamer where
  "new_dreamer = \<lparr> dreamLog = [], discoveredConnections = [], isDreaming = False,
                   dream_cfg = default_dream_config \<rparr>"

datatype dream_result = Rejected string | Completed dream_session

text \<open>\<open>xs[Math.floor(r * xs.length)]\<close>; a read outside the array is \<open>undefined\<close>.\<close>

definition pick :: "'a list \<Rightarrow> real \<Rightarrow> 'a option" where
  "pick xs r =
     (let i = \<lfloor>r * real (length xs)\<rfloor>
      in if 0 \<le> i \<and> i < int (length xs) then Some (xs ! nat i) else None)"

definition dream_stopWords :: "string list" where
  "dream_stopWords = [''the'', ''a'', ''an'', ''and'', ''or'', ''but'', ''in'', ''on'', ''at'',
                      ''to'', ''for'', ''of'']"

definition dream_extractKeywords :: "string \<Rightarrow> string list" where
  "dream_extractKeywords t =
     filter (\<lambda>word. length word > 2 \<and> word \<notin> set dream_stopWords) (split_ws (toLowerCase t))"

text \<open>\<open>interest.keywords || this.extractKeywords(interest.topic)\<close>; an array is truthy.\<close>

definition keywords_of :: "interest_node \<Rightarrow> string list" where
  "keywords_of interest =
     (case node_keywords interest of Some ks \<Rightarrow> ks | None \<Rightarrow> dream_extractKeywords (topic interest))"

definition topicInDiscoveries :: "discovery list \<Rightarrow> interest_node \<Rightarrow> string list" where
  "topicInDiscoveries ds interest =
     map disc_id
       (filter (\<lambda>d. (case disc_keywords d of None \<Rightarrow> False
                      | Some ks \<Rightarrow> toLowerCase (topic interest) \<in> set ks)
                     \<or> searchTopic d = topic interest) ds)"

text \<open>
  \<open>calculateDreamSimilarity(interestA, interestB)\<close>; \<open>ex\<close> is
  \<open>window.explorer.discoveries\<close> when there is an explorer, \<open>r\<close> the random draw.
\<close>

definition calculateDreamSimilarity :: "discovery list option \<Rightarrow> real \<Rightarrow> interest_node \<Rightarrow> interest_node \<Rightarrow> real" where
  "calculateDreamSimilarity ex r interestA interestB =
     (let keywordsA = js_set (keywords_of interestA);
          keywordsB = js_set (keywords_of interestB);
          keywordSimilarity =
            (if length keywordsA > 0 \<and> length keywordsB > 0
             then real (length (filter (\<lambda>k. k \<in> set keywordsB) keywordsA))
                  / real (length (js_set (keywordsA @ keywordsB)))
             else 0);
          connectionsA = js_set (connections interestA);
          connectionsB = js_set (connections interestB);
          sharedConnections = length (filter (\<lambda>c. c \<in> set connectionsB) connectionsA);
          connectionSimilarity =
            real sharedConnections / real (max 1 (min (length connectionsA) (length connectionsB)));
          discoveryCooccurrence =
            (case ex of
               None \<Rightarrow> 0
             | Some ds \<Rightarrow>
                 let topicAInDiscoveries = topicInDiscoveries ds interestA;
                     topicBInDiscoveries = topicInDiscoveries ds interestB;
                     sharedDiscoveries =
                       length (filter (\<lambda>i. i \<in> set topicBInDiscoveries) topicAInDiscoveries)
                 in if sharedDiscoveries > 0 then 3 / 10 else 0)
      in keywordSimilarity * (4 / 10) + connectionSimilarity * (3 / 10)
         + discoveryCooccurrence * (2 / 10) + r * (1 / 10))"

text \<open>
  \<open>analyzeChainForConnections(chain)\<close>: the two nested \<open>for\<close> loops, \<open>i\<close> from 0 below
  \<open>length - 2\<close> and \<open>j\<close> from \<open>i + 2\<close> below \<open>length\<close>; every pair draws one random number.
\<close>

definition analyze_pair :: "dream_config \<Rightarrow> discovery list option \<Rightarrow> int \<Rightarrow> (nat \<Rightarrow> real)
    \<Rightarrow> interest_node list \<Rightarrow> nat \<Rightarrow> nat \<Rightarrow> dream_connection list \<times> nat \<Rightarrow> dream_connection list \<times> nat" where
  "analyze_pair cfg ex now rnd chain i j st =
     (case st of (potentialConnections, k) \<Rightarrow>
        let topicA = chain ! i;
            topicB = chain ! j;
            sim = calculateDreamSimilarity ex (rnd k) topicA topicB
        in (if sim \<ge> dreamConnectionThreshold cfg
            then potentialConnections @
                   [\<lparr> dc_from = topic topicA, dc_to = topic topicB, similarity = sim,
                      distance = j - i, discoveredAt = now \<rparr>]
            else potentialConnections,
            k + 1))"

definition analyzeChainForConnections :: "dream_config \<Rightarrow> discovery list option \<Rightarrow> int \<Rightarrow> (nat \<Rightarrow> real)
    \<Rightarrow> nat \<Rightarrow> interest_node list \<Rightarrow> dream_connection list \<times> nat" where
  "analyzeChainForConnections cfg ex now rnd k chain =
     fold (\<lambda>i st. fold (analyze_pair cfg ex now rnd chain i) [i + 2 ..< length chain] st)
          [0 ..< length chain - 2] ([], k)"

text \<open>
  \<open>generateMemoryChain(interests)\<close>. The array \<open>interests\<close> holds the nodes of the graph
  in map order; a chain holds the nodes as they are when the chain is built. The walk
  makes at most \<open>replayChainLength - 1\<close> steps and stops at the first step without a
  candidate. Reading \<open>topic\<close> of an \<open>undefined\<close> start node raises a TypeError (\<open>None\<close>).
\<close>

fun chain_walk :: "(nat \<Rightarrow> real) \<Rightarrow> brain \<Rightarrow> nat
    \<Rightarrow> interest_node list \<times> string list \<times> interest_node \<times> nat \<Rightarrow> interest_node list \<times> nat" where
  "chain_walk rnd b 0 (chain, used, current, k) = (chain, k)"
| "chain_walk rnd b (Suc n) (chain, used, current, k) =
     (let follow = (rnd k < 6 / 10 \<and> length (connections current) > 0);
          k1 = k + 1;
          available = filter (\<lambda>t. t \<notin> set used) (connections current);
          (next1, k2) =
            (if follow \<and> length available > 0
             then ((case pick available (rnd k1) of
                      None \<Rightarrow> None
                    | Some nextTopic \<Rightarrow> map_of (interests b) nextTopic), k1 + 1)
             else (None, k1));
          availableJump = filter (\<lambda>i. topic i \<notin> set used) (map snd (interests b));
          (next2, k3) =
            (case next1 of
               Some nx \<Rightarrow> (Some nx, k2)
             | None \<Rightarrow> if length availableJump > 0
                       then (pick availableJump (rnd k2), k2 + 1) else (None, k2))
      in case next2 of
           Some nx \<Rightarrow> chain_walk rnd b n (chain @ [nx], used @ [topic nx], nx, k3)
         | None \<Rightarrow> (chain, k3))"

definition generateMemoryChain :: "dream_config \<Rightarrow> (nat \<Rightarrow> real) \<Rightarrow> nat \<Rightarrow> brain
    \<Rightarrow> (interest_node list \<times> nat) option" where
  "generateMemoryChain cfg rnd k b =
     (case pick (map snd (interests b)) (rnd k) of
        None \<Rightarrow> None
      | Some current \<Rightarrow>
          Some (chain_walk rnd b (replayChainLength cfg - 1)
                  ([current], [topic current], current, k + 1)))"

definition isNewConnection :: "brain \<Rightarrow> string \<Rightarrow> string \<Rightarrow> bool" where
  "isNewConnection b topicA topicB =
     (case map_of (interests b) topicA of
        None \<Rightarrow> True
      | Some interest \<Rightarrow> topicB \<notin> set (connections interest))"

definition createDreamConnection :: "int \<Rightarrow> string \<Rightarrow> string \<Rightarrow> real \<Rightarrow> dreamer \<times> brain \<Rightarrow> dreamer \<times> brain" where
  "createDreamConnection now topicA topicB sim st =
     (case st of (d, b) \<Rightarrow>
        (case (map_of (interests b) topicA, map_of (interests b) topicB) of
           (Some _, Some _) \<Rightarrow>
             let boost = serendipityBoost (dream_cfg d) * (5 / 10);
                 g1 = AList.map_entry topicA
                        (\<lambda>n. if topicB \<in> set (connections n) then n
                              else n\<lparr> connections := connections n @ [topicB] \<rparr>) (interests b);
                 g2 = AList.map_entry topicB
                        (\<lambda>n. if topicA \<in> set (connections n) then n
                              else n\<lparr> connections := connections n @ [topicA] \<rparr>) g1;
                 g3 = AList.map_entry topicA (\<lambda>n. n\<lparr> weight := min (weight n + boost) 1 \<rparr>) g2;
                 g4 = AList.map_entry topicB (\<lambda>n. n\<lparr> weight := min (weight n + boost) 1 \<rparr>) g3;
                 g5 = AList.map_entry topicA
                        (\<lambda>n. n\<lparr> dreamConnections := dreamConnections n @ [(topicB, now)] \<rparr>) g4
             in (d\<lparr> discoveredConnections :=
                      discoveredConnections d @ [(topicA, topicB, sim, now)] \<rparr>,
                 b\<lparr> interests := g5 \<rparr>)
         | _ \<Rightarrow> (d, b)))"

definition strengthenConnection :: "string \<Rightarrow> string \<Rightarrow> brain \<Rightarrow> brain" where
  "strengthenConnection topicA topicB b =
     (case (map_of (interests b) topicA, map_of (interests b) topicB) of
        (Some _, Some _) \<Rightarrow>
          let g1 = AList.map_entry topicA
                     (\<lambda>n. n\<lparr> weight := min (weight n + 5 / 100) 1 \<rparr>) (interests b);
              g2 = AList.map_entry topicB (\<lambda>n. n\<lparr> weight := min (weight n + 5 / 100) 1 \<rparr>) g1
          in b\<lparr> interests := g2 \<rparr>
      | _ \<Rightarrow> b)"

text \<open>\<open>generateInsights(chains)\<close>; the message texts are functions of the fields kept.\<close>

definition topicFrequency :: "interest_node list list \<Rightarrow> (string \<times> nat) list" where
  "topicFrequency cs =
     fold (\<lambda>chain freq.
             fold (\<lambda>interest f.
                     AList.update (topic interest)
                       ((case map_of f (topic interest) of None \<Rightarrow> 0 | Some c \<Rightarrow> c) + 1) f)
                  chain freq)
          cs []"

definition generateInsights :: "interest_node list list \<Rightarrow> insight list" where
  "generateInsights cs =
     (let themes = map (\<lambda>(t, c). Theme t c) (filter (\<lambda>(t, c). c \<ge> 2) (topicFrequency cs));
          bridges = map (\<lambda>chain. Bridge (topic (chain ! 0)) (topic (chain ! (length chain - 1)))
                                     (topic (chain ! (length chain div 2))))
                        (filter (\<lambda>chain. length chain \<ge> 4) cs)
      in take 5 (themes @ bridges))"

text \<open>The body of the loop over the connections found in one chain.\<close>

definition apply_connection :: "int \<Rightarrow> dream_connection \<Rightarrow> dream_session \<times> dreamer \<times> brain
    \<Rightarrow> dream_session \<times> dreamer \<times> brain" where
  "apply_connection now conn st =
     (case st of (session, d, b) \<Rightarrow>
        if isNewConnection b (dc_from conn) (dc_to conn) then
          let db = createDreamConnection now (dc_from conn) (dc_to conn) (similarity conn) (d, b)
          in (session\<lparr> newConnections := newConnections session @ [conn] \<rparr>, fst db, snd db)
        else
          (session\<lparr> strengthenedConnections := strengthenedConnections session @ [conn] \<rparr>,
           d, strengthenConnection (dc_from conn) (dc_to conn) b))"

text \<open>The loop \<open>for (i = 0; i < chainsPerDream; i++)\<close>, counted down.\<close>

fun dream_loop :: "int \<Rightarrow> (nat \<Rightarrow> real) \<Rightarrow> discovery list option \<Rightarrow> nat
    \<Rightarrow> dream_session \<times> dreamer \<times> brain \<times> nat
    \<Rightarrow> js_error + dream_session \<times> dreamer \<times> brain \<times> nat" where
  "dream_loop now rnd ex 0 st = Inr st"
| "dream_loop now rnd ex (Suc n) (session, d, b, k) =
     (case generateMemoryChain (dream_cfg d) rnd k b of
        None \<Rightarrow> Inl TypeError
      | Some (chain, k1) \<Rightarrow>
          let found = analyzeChainForConnections (dream_cfg d) ex now rnd k1 chain;
              st = fold (apply_connection now) (fst found)
                     (session\<lparr> chains := chains session @ [chain] \<rparr>, d, b)
          in dream_loop now rnd ex n (fst st, fst (snd st), snd (snd st), snd found))"

text \<open>
  \<open>dream()\<close>. The result is an exception or the returned object together with the new
  dreamer, graph and random counter. The callbacks, the visualisation delay and the
  writes to local storage are outside the model.
\<close>

definition dream :: "int \<Rightarrow> (nat \<Rightarrow> real) \<Rightarrow> nat \<Rightarrow> discovery list option \<Rightarrow> dreamer \<Rightarrow> brain option
    \<Rightarrow> js_error + dream_result \<times> dreamer \<times> brain option \<times> nat" where
  "dream now rnd k ex d wb =
     (case wb of
        None \<Rightarrow> Inr (Rejected ''Already dreaming or brain not initialized'', d, wb, k)
      | Some b \<Rightarrow>
          if isDreaming d
          then Inr (Rejected ''Already dreaming or brain not initialized'', d, wb, k)
          else
            let d1 = d\<lparr> isDreaming := True \<rparr>;
                dreamSession = \<lparr> startTime = now, chains = [], newConnections = [],
                                 strengthenedConnections = [], insights = [], endTime = None \<rparr>
            in if length (interests b) < 3
               then Inr (Rejected ''Need at least 3 interests to dream'',
                         d1\<lparr> isDreaming := False \<rparr>, Some b, k)
               else (case dream_loop now rnd ex (chainsPerDream (dream_cfg d1))
                            (dreamSession, d1, b, k) of
                       Inl e \<Rightarrow> Inl e
                     | Inr (session, d2, b2, k2) \<Rightarrow>
                         let session1 = session\<lparr> insights := generateInsights (chains session),
                                                 endTime := Some now \<rparr>;
                             d3 = d2\<lparr> dreamLog := dreamLog d2 @ [session1],
                                      isDreaming := False \<rparr>
                         in Inr (Completed session1, d3, Some b2, k2)))"

section \<open>Strategy evolution (GeneticEvolution)\<close>

record genetics_config =
  populationSize :: nat
  mutationRate :: real
  crossoverRate :: real
  elitismCount :: nat
  generationsPerCycle :: nat
  fitnessDecay :: real

definition default_genetics_config :: genetics_config where
  "default_genetics_config =
     \<lparr> populationSize = 10, mutationRate = 15 / 100, crossoverRate = 7 / 10,
       elitismCount = 2, generationsPerCycle = 5, fitnessDecay = 95 / 100 \<rparr>"

record api_preferences =
  wikipedia :: real
  hackerNews :: real
  reddit :: real
  openLibrary :: real

record genes =
  explorationBias :: real
  breadthPreference :: real
  recencyWeight :: real
  connectionAffinity :: real
  noveltySeeking :: real
  apiPreferences :: api_preferences
  timePreference :: real
  riskTolerance :: real
  memoryInfluence :: real
  serendipityFactor :: real

text \<open>
  A strategy. Its id \<open>strat_<time>_<random digits>\<close> is kept as the pair of the time and
  the random draw it is printed from. \<open>lastUsed\<close> is the field \<open>recordOutcome\<close> adds.
\<close>

record strategy =
  strategy_id :: "int \<times> real"
  strategy_generation :: nat
  strategy_createdAt :: int
  fitness :: real
  explorations :: nat
  discoveries :: nat
  genes :: genes
  lastUsed :: "int option"

record history_entry =
  hist_generation :: nat
  hist_timestamp :: int
  bestFitness :: real
  averageFitness :: real
  hist_bestStrategy :: "int \<times> real"

record genetics =
  population :: "strategy list"
  generation :: nat
  evolutionHistory :: "history_entry list"
  bestStrategy :: "strategy option"
  genetics_cfg :: genetics_config

text \<open>
  \<open>Object.keys(strategy.genes)\<close> and \<open>Object.keys(strategy.genes.apiPreferences)\<close>, in the
  order of the object literal of \<open>createRandomStrategy\<close>, with the reads and writes
  \<open>genes[gene]\<close> and \<open>apiPreferences[api]\<close>.
\<close>

datatype gene_key = ExplorationBias | BreadthPreference | RecencyWeight | ConnectionAffinity
  | NoveltySeeking | ApiPreferences | TimePreference | RiskTolerance | MemoryInfluence
  | SerendipityFactor

datatype api_key = Wikipedia | HackerNews | Reddit | OpenLibrary

definition gene_keys :: "gene_key list" where
  "gene_keys = [ExplorationBias, BreadthPreference, RecencyWeight, ConnectionAffinity,
                NoveltySeeking, ApiPreferences, TimePreference, RiskTolerance, MemoryInfluence,
                SerendipityFactor]"

definition api_keys :: "api_key list" where
  "api_keys = [Wikipedia, HackerNews, Reddit, OpenLibrary]"

fun get_gene :: "gene_key \<Rightarrow> genes \<Rightarrow> real" where
  "get_gene ExplorationBias g = explorationBias g"
| "get_gene BreadthPreference g = breadthPreference g"
| "get_gene RecencyWeight g = recencyWeight g"
| "get_gene ConnectionAffinity g = connectionAffinity g"
| "get_gene NoveltySeeking g = noveltySeeking g"
| "get_gene ApiPreferences g = 0"
| "get_gene TimePreference g = timePreference g"
| "get_gene RiskTolerance g = riskTolerance g"
| "get_gene MemoryInfluence g = memoryInfluence g"
| "get_gene SerendipityFactor g = serendipityFactor g"

fun set_gene :: "gene_key \<Rightarrow> real \<Rightarrow> genes \<Rightarrow> genes" where
  "set_gene ExplorationBias v g = g\<lparr> explorationBias := v \<rparr>"
| "set_gene BreadthPreference v g = g\<lparr> breadthPreference := v \<rparr>"
| "set_gene RecencyWeight v g = g\<lparr> recencyWeight := v \<rparr>"
| "set_gene ConnectionAffinity v g = g\<lparr> connectionAffinity := v \<rparr>"
| "set_gene NoveltySeeking v g = g\<lparr> noveltySeeking := v \<rparr>"
| "set_gene ApiPreferences v g = g"
| "set_gene TimePreference v g = g\<lparr> timePreference := v \<rparr>"
| "set_gene RiskTolerance v g = g\<lparr> riskTolerance := v \<rparr>"
| "set_gene MemoryInfluence v g = g\<lparr> memoryInfluence := v \<rparr>"
| "set_gene SerendipityFactor v g = g\<lparr> serendipityFactor := v \<rparr>"

fun get_api :: "api_key \<Rightarrow> genes \<Rightarrow> real" where
  "get_api Wikipedia g = wikipedia (apiPreferences g)"
| "get_api HackerNews g = hackerNews (apiPreferences g)"
| "get_api Reddit g = reddit (apiPreferences g)"
| "get_api OpenLibrary g = openLibrary (apiPreferences g)"

fun set_api :: "api_key \<Rightarrow> real \<Rightarrow> genes \<Rightarrow> genes" where
  "set_api Wikipedia v g = g\<lparr> apiPreferences := (apiPreferences g)\<lparr> wikipedia := v \<rparr> \<rparr>"
| "set_api HackerNews v g = g\<lparr> apiPreferences := (apiPreferences g)\<lparr> hackerNews := v \<rparr> \<rparr>"
| "set_api Reddit v g = g\<lparr> apiPreferences := (apiPreferences g)\<lparr> reddit := v \<rparr> \<rparr>"
| "set_api OpenLibrary v g = g\<lparr> apiPreferences := (apiPreferences g)\<lparr> openLibrary := v \<rparr> \<rparr>"

text \<open>
  \<open>createRandomStrategy()\<close>: the id draws first, then the genes in the order of the
  literal. \<open>gen\<close> is \<open>this.generation\<close>.
\<close>

definition createRandomStrategy :: "int \<Rightarrow> nat \<Rightarrow> (nat \<Rightarrow> real) \<Rightarrow> nat \<Rightarrow> strategy \<times> nat" where
  "createRandomStrategy now gen rnd k =
     (\<lparr> strategy_id = (now, rnd k), strategy_generation = gen, strategy_createdAt = now,
        fitness = 0, explorations = 0, discoveries = 0,
        genes = \<lparr> explorationBias = rnd (k + 1), breadthPreference = rnd (k + 2),
                  recencyWeight = rnd (k + 3), connectionAffinity = rnd (k + 4),
                  noveltySeeking = rnd (k + 5),
                  apiPreferences = \<lparr> wikipedia = rnd (k + 6), hackerNews = rnd (k + 7),
                                     reddit = rnd (k + 8), openLibrary = rnd (k + 9) \<rparr>,
                  timePreference = rnd (k + 10), riskTolerance = rnd (k + 11),
                  memoryInfluence = rnd (k + 12), serendipityFactor = rnd (k + 13) \<rparr>,
        lastUsed = None \<rparr>,
      k + 14)"

text \<open>
  The constructor's state before the population is filled: nothing is stored yet, so
  \<open>loadPopulation()\<close> leaves it as it is. (\<open>loadPopulation\<close> reads back what
  \<open>savePopulation\<close> wrote, a state of this engine.)
\<close>

definition new_genetics :: genetics where
  "new_genetics = \<lparr> population = [], generation = 0, evolutionHistory = [],
                    bestStrategy = None, genetics_cfg = default_genetics_config \<rparr>"

text \<open>\<open>initializePopulation()\<close>: the loop \<open>for (i = 0; i < populationSize; i++)\<close>, counted down.\<close>

primrec init_loop :: "int \<Rightarrow> nat \<Rightarrow> (nat \<Rightarrow> real) \<Rightarrow> nat \<Rightarrow> strategy list \<times> nat \<Rightarrow> strategy list \<times> nat" where
  "init_loop now gen rnd 0 st = st"
| "init_loop now gen rnd (Suc n) st =
     (let created = createRandomStrategy now gen rnd (snd st)
      in init_loop now gen rnd n (fst st @ [fst created], snd created))"

definition initializePopulation :: "int \<Rightarrow> (nat \<Rightarrow> real) \<Rightarrow> nat \<Rightarrow> genetics \<Rightarrow> genetics \<times> nat" where
  "initializePopulation now rnd k g =
     (let filled = init_loop now (generation g) rnd (populationSize (genetics_cfg g)) ([], k)
      in (g\<lparr> population := fst filled \<rparr>, snd filled))"

text \<open>
  \<open>selectStrategy()\<close>: a tournament of three draws from the population. An index outside
  the array reads \<open>undefined\<close>, which the sort leaves behind the strategies and \<open>||\<close>
  replaces by the first entry.
\<close>

definition selectStrategy :: "int \<Rightarrow> (nat \<Rightarrow> real) \<Rightarrow> nat \<Rightarrow> genetics
    \<Rightarrow> strategy option \<times> genetics \<times> nat" where
  "selectStrategy now rnd k g =
     (let started = (if length (population g) = 0 then initializePopulation now rnd k g
                     else (g, k));
          g1 = fst started;
          k1 = snd started;
          tournament = [pick (population g1) (rnd k1), pick (population g1) (rnd (k1 + 1)),
                        pick (population g1) (rnd (k1 + 2))];
          ranked = sort_key (\<lambda>s. - fitness s) (List.map_filter (\<lambda>x. x) tournament);
          entry = (\<lambda>i. if i < length ranked then Some (ranked ! i) else None);
          rand = rnd (k1 + 3);
          selected = (if rand < 7 / 10 then entry 0
                      else if rand < 9 / 10
                           then (case entry 1 of Some s \<Rightarrow> Some s | None \<Rightarrow> entry 0)
                           else (case entry 2 of Some s \<Rightarrow> Some s | None \<Rightarrow> entry 0))
      in (selected, g1, k1 + 4))"

text \<open>
  \<open>recordOutcome(strategy, outcome)\<close>. The strategy is given by its place in the population;
  a strategy object that is no longer in the population leaves the population as it is.
  A count missing from the outcome is 0.
\<close>

record outcome =
  out_discoveries :: nat
  out_newConnections :: nat
  out_reinforced :: nat
  out_failures :: nat
  out_userClicks :: nat

definition recordOutcome :: "int \<Rightarrow> nat \<Rightarrow> outcome \<Rightarrow> genetics \<Rightarrow> genetics" where
  "recordOutcome now i out g =
     (if i < length (population g) then
        let s = population g ! i;
            fitnessGain = real (out_discoveries out) * (3 / 10)
                          + real (out_newConnections out) * (5 / 10)
                          + real (out_reinforced out) * (1 / 10)
                          - real (out_failures out) * (2 / 10)
                          + real (out_userClicks out) * (4 / 10);
            s1 = s\<lparr> explorations := explorations s + 1,
                     discoveries := discoveries s + out_discoveries out,
                     fitness := fitness s * fitnessDecay (genetics_cfg g) + fitnessGain,
                     lastUsed := Some now \<rparr>
        in g\<lparr> population := (population g)[i := s1] \<rparr>
      else g)"

text \<open>\<open>reset()\<close>.\<close>

definition reset :: "int \<Rightarrow> (nat \<Rightarrow> real) \<Rightarrow> nat \<Rightarrow> genetics \<Rightarrow> genetics \<times> nat" where
  "reset now rnd k g =
     initializePopulation now rnd k
       (g\<lparr> population := [], generation := 0, evolutionHistory := [], bestStrategy := None \<rparr>)"

text \<open>
  \<open>savePopulation()\<close> and \<open>loadPopulation()\<close>: the stored item is \<open>None\<close> when nothing is stored
  or when the stored text does not parse, in which case the fields keep the values the
  constructor gave them. The constructor loads the stored population and fills a fresh one
  when none came back.
\<close>

record saved =
  saved_population :: "strategy list"
  saved_generation :: nat
  saved_bestStrategy :: "strategy option"
  saved_evolutionHistory :: "history_entry list"

definition savePopulation :: "genetics \<Rightarrow> saved" where
  "savePopulation g =
     \<lparr> saved_population = population g, saved_generation = generation g,
       saved_bestStrategy = bestStrategy g,
       saved_evolutionHistory =
         drop (length (evolutionHistory g) - 100) (evolutionHistory g) \<rparr>"

definition loadPopulation :: "saved option \<Rightarrow> genetics \<Rightarrow> genetics" where
  "loadPopulation store g =
     (case store of
        None \<Rightarrow> g
      | Some data \<Rightarrow>
          g\<lparr> population := saved_population data, generation := saved_generation data,
             bestStrategy := saved_bestStrategy data,
             evolutionHistory := saved_evolutionHistory data \<rparr>)"

definition GeneticEvolution :: "int \<Rightarrow> (nat \<Rightarrow> real) \<Rightarrow> nat \<Rightarrow> saved option \<Rightarrow> genetics \<times> nat" where
  "GeneticEvolution now rnd k store =
     (let g = loadPopulation store new_genetics
      in if length (population g) = 0 then initializePopulation now rnd k g else (g, k))"

text \<open>\<open>selectParent()\<close>; on an empty population the result is \<open>undefined\<close> (\<open>None\<close>).\<close>

fun roulette :: "real \<Rightarrow> (strategy \<times> real) list \<Rightarrow> strategy option" where
  "roulette random [] = None"
| "roulette random ((s, f) # rest) =
     (let random1 = random - f in if random1 \<le> 0 then Some s else roulette random1 rest)"

definition selectParent :: "(nat \<Rightarrow> real) \<Rightarrow> nat \<Rightarrow> strategy list \<Rightarrow> strategy option \<times> nat" where
  "selectParent rnd k pop =
     (case pop of
        [] \<Rightarrow> (None, k + 1)
      | p # ps \<Rightarrow>
          let minFitness = fold (\<lambda>s m. min (fitness s) m) ps (fitness p);
              adjusted = map (\<lambda>s. (s, fitness s - minFitness + 1)) pop;
              totalFitness = fold (\<lambda>(s, f) acc. acc + f) adjusted 0;
              random = rnd k * totalFitness
          in (case roulette random adjusted of Some s \<Rightarrow> Some s | None \<Rightarrow> Some p, k + 1))"

text \<open>\<open>crossover(parent1, parent2)\<close>.\<close>

definition crossover_gene :: "(nat \<Rightarrow> real) \<Rightarrow> strategy \<Rightarrow> strategy \<Rightarrow> gene_key \<Rightarrow> genes \<times> nat \<Rightarrow> genes \<times> nat" where
  "crossover_gene rnd parent1 parent2 gene st =
     (if gene = ApiPreferences then
        fold (\<lambda>api (g, k).
                (set_api api (if rnd k < 1 / 2 then get_api api (genes parent1)
                              else get_api api (genes parent2)) g, k + 1))
             api_keys st
      else case st of (g, k) \<Rightarrow>
             (set_gene gene (if rnd k < 1 / 2 then get_gene gene (genes parent1)
                             else get_gene gene (genes parent2)) g, k + 1))"

definition crossover :: "int \<Rightarrow> nat \<Rightarrow> (nat \<Rightarrow> real) \<Rightarrow> nat \<Rightarrow> strategy \<Rightarrow> strategy \<Rightarrow> strategy \<times> nat" where
  "crossover now gen rnd k parent1 parent2 =
     (let created = createRandomStrategy now gen rnd k;
          offspring = fst created;
          mixed = fold (crossover_gene rnd parent1 parent2) gene_keys (genes offspring, snd created)
      in (offspring\<lparr> genes := fst mixed \<rparr>, snd mixed))"

text \<open>\<open>mutate(strategy)\<close>.\<close>

definition mutate_gene :: "genetics_config \<Rightarrow> (nat \<Rightarrow> real) \<Rightarrow> gene_key \<Rightarrow> genes \<times> nat \<Rightarrow> genes \<times> nat" where
  "mutate_gene cfg rnd gene st =
     (case st of (g, k) \<Rightarrow>
        if rnd k < mutationRate cfg then
          (if gene = ApiPreferences then
             fold (\<lambda>api (g1, k1).
                     if rnd k1 < mutationRate cfg then (set_api api (rnd (k1 + 1)) g1, k1 + 2)
                     else (g1, k1 + 1))
                  api_keys (g, k + 1)
           else let mutation = (rnd (k + 1) - 1 / 2) * (3 / 10)
                in (set_gene gene (max 0 (min 1 (get_gene gene g + mutation))) g, k + 2))
        else (g, k + 1))"

definition mutate :: "genetics_config \<Rightarrow> (nat \<Rightarrow> real) \<Rightarrow> nat \<Rightarrow> strategy \<Rightarrow> strategy \<times> nat" where
  "mutate cfg rnd k s =
     (let mutated = fold (mutate_gene cfg rnd) gene_keys (genes s, k)
      in (s\<lparr> genes := fst mutated \<rparr>, snd mutated))"

text \<open>
  The body of the loop \<open>while (newPopulation.length < populationSize)\<close> of \<open>evolve()\<close>:
  one offspring. A parent that is \<open>undefined\<close> makes \<open>crossover\<close> raise a TypeError and
  the JSON copy a SyntaxError.
\<close>

definition breed :: "int \<Rightarrow> (nat \<Rightarrow> real) \<Rightarrow> genetics_config \<Rightarrow> nat \<Rightarrow> strategy list \<Rightarrow> nat
    \<Rightarrow> js_error + strategy \<times> nat" where
  "breed now rnd cfg gen pop k =
     (let sel1 = selectParent rnd k pop;
          sel2 = selectParent rnd (snd sel1) pop;
          k2 = snd sel2;
          doCross = (rnd k2 < crossoverRate cfg)
      in case (fst sel1, fst sel2) of
           (Some parent1, Some parent2) \<Rightarrow>
             let crossed = (if doCross then crossover now gen rnd (k2 + 1) parent1 parent2
                            else (parent1, k2 + 1));
                 mutated = mutate cfg rnd (snd crossed) (fst crossed);
                 k4 = snd mutated;
                 offspring = (fst mutated)\<lparr> strategy_id := (now, rnd k4),
                                             strategy_generation := gen + 1,
                                             strategy_createdAt := now,
                                             fitness := 0, explorations := 0,
                                             discoveries := 0 \<rparr>
             in Inr (offspring, k4 + 1)
         | _ \<Rightarrow> Inl (if doCross then TypeError else SyntaxError))"

function fill_offspring :: "int \<Rightarrow> (nat \<Rightarrow> real) \<Rightarrow> genetics_config \<Rightarrow> nat \<Rightarrow> strategy list
    \<Rightarrow> strategy list \<times> nat \<Rightarrow> js_error + strategy list \<times> nat" where
  "fill_offspring now rnd cfg gen pop (newPopulation, k) =
     (if length newPopulation < populationSize cfg then
        (case breed now rnd cfg gen pop k of
           Inl e \<Rightarrow> Inl e
         | Inr (offspring, k1) \<Rightarrow>
             fill_offspring now rnd cfg gen pop (newPopulation @ [offspring], k1))
      else Inr (newPopulation, k))"
  by pat_completeness auto
termination
  by (relation "measure (\<lambda>(now, rnd, cfg, gen, pop, newPopulation, k).
                          populationSize cfg - length newPopulation)") auto

text \<open>
  \<open>evolve()\<close>: an exception, or the returned value (\<open>None\<close> for \<open>undefined\<close>) with the new
  state and random counter. The sort is the stable sort by descending fitness.
\<close>

definition evolve :: "int \<Rightarrow> (nat \<Rightarrow> real) \<Rightarrow> nat \<Rightarrow> genetics
    \<Rightarrow> js_error + (nat \<times> strategy list \<times> strategy option) option \<times> genetics \<times> nat" where
  "evolve now rnd k g =
     (if length (population g) < 2 then Inr (None, g, k)
      else
        let cfg = genetics_cfg g;
            sorted = sort_key (\<lambda>s. - fitness s) (population g);
            elite = map (\<lambda>s. s\<lparr> strategy_generation := generation g + 1 \<rparr>)
                        (take (elitismCount cfg) sorted)
        in case fill_offspring now rnd cfg (generation g) sorted (elite, k) of
             Inl e \<Rightarrow> Inl e
           | Inr (newPopulation, k1) \<Rightarrow>
               let entry = \<lparr> hist_generation = generation g, hist_timestamp = now,
                              bestFitness = fitness (sorted ! 0),
                              averageFitness = fold (\<lambda>s acc. acc + fitness s) sorted 0
                                               / real (length sorted),
                              hist_bestStrategy = strategy_id (sorted ! 0) \<rparr>;
                   best = (case newPopulation of [] \<Rightarrow> None | s # _ \<Rightarrow> Some s);
                   g1 = g\<lparr> population := newPopulation, generation := generation g + 1,
                           evolutionHistory := evolutionHistory g @ [entry],
                           bestStrategy := best \<rparr>
               in Inr (Some (generation g1, population g1, bestStrategy g1), g1, k1))"

section \<open>Auxiliary notions and example states\<close>

text \<open>The two node updates of \<open>reinforceInterest\<close>, named for the proofs.\<close>

definition reinforced :: "brain_config \<Rightarrow> int \<Rightarrow> real \<Rightarrow> interest_node \<Rightarrow> interest_node" where
  "reinforced cfg now s n = n\<lparr> weight := min (weight n + s) (maxWeight cfg),
                               lastActive := now, accessCount := accessCount n + 1 \<rparr>"

definition bumped :: "brain_config \<Rightarrow> int \<Rightarrow> real \<Rightarrow> interest_node \<Rightarrow> interest_node" where
  "bumped cfg now s n = n\<lparr> weight := min (weight n + s * reinforcementFactor cfg) (maxWeight cfg),
                           lastActive := now \<rparr>"

text \<open>
  \<open>keeps R b b'\<close>: every node of \<open>b'\<close> is, under the same key, a node of \<open>b\<close> changed
  within the relation \<open>R\<close>; no node of \<open>b'\<close> is new.
\<close>

definition keeps :: "(interest_node \<Rightarrow> interest_node \<Rightarrow> bool) \<Rightarrow> brain \<Rightarrow> brain \<Rightarrow> bool" where
  "keeps R b b' =
     (\<forall>k n'. map_of (interests b') k = Some n' \<longrightarrow> (\<exists>n. map_of (interests b) k = Some n \<and> R n n'))"

definition only_connections :: "interest_node \<Rightarrow> interest_node \<Rightarrow> bool" where
  "only_connections n n' = (n' = n\<lparr> connections := connections n' \<rparr>)"

text \<open>
  A graph with two linked topics, built by the engine itself: ``machine learning'' is added
  at time 1000 and ``Deep Learning'' at time 2000.
\<close>

definition demo_brain :: brain where
  "demo_brain = addInterest 2000 ''Deep Learning'' (1 / 10)
                  (addInterest 1000 ''machine learning'' (1 / 10) new_brain)"

definition ml_node :: interest_node where
  "ml_node = \<lparr> topic = ''machine learning'', weight = 11 / 20,
               connections = [''deep learning''], lastActive = 1000, createdAt = 1000,
               accessCount = 1, isCore = False, memoryType = ShortTerm,
               node_keywords = Some [''machine'', ''learning''], promotedAt = None,
               dreamConnections = [] \<rparr>"

definition dl_node :: interest_node where
  "dl_node = \<lparr> topic = ''deep learning'', weight = 1 / 2,
               connections = [''machine learning''], lastActive = 2000, createdAt = 2000,
               accessCount = 1, isCore = False, memoryType = ShortTerm,
               node_keywords = Some [''deep'', ''learning''], promotedAt = None,
               dreamConnections = [] \<rparr>"

text \<open>The same graph after a decay tick at time 6000, which leaves both topics weak.\<close>

definition weak_brain :: brain where
  "weak_brain = applyDecay 6000 demo_brain"

text \<open>
  The terms of the dream similarity over sets. \<open>sharedConnectionRatio\<close> divides by
  max(1, min(|A|, |B|)).
\<close>

definition keywordJaccard :: "interest_node \<Rightarrow> interest_node \<Rightarrow> real" where
  "keywordJaccard a b =
     (if set (keywords_of a) = {} \<or> set (keywords_of b) = {} then 0
      else real (card (set (keywords_of a) \<inter> set (keywords_of b)))
           / real (card (set (keywords_of a) \<union> set (keywords_of b))))"

definition sharedConnectionRatio :: "interest_node \<Rightarrow> interest_node \<Rightarrow> real" where
  "sharedConnectionRatio a b =
     real (card (set (connections a) \<inter> set (connections b)))
     / real (max 1 (min (card (set (connections a))) (card (set (connections b)))))"

text \<open>
  The ratio and the similarity as the specification words them, dividing by
  min(|A|, |B|, 1).
\<close>

definition spec_sharedConnectionRatio :: "interest_node \<Rightarrow> interest_node \<Rightarrow> real" where
  "spec_sharedConnectionRatio a b =
     real (card (set (connections a) \<inter> set (connections b)))
     / real (min (card (set (connections a))) (min (card (set (connections b))) 1))"

definition discoveryCooccurrenceBonus :: "discovery list option \<Rightarrow> interest_node \<Rightarrow> interest_node \<Rightarrow> real" where
  "discoveryCooccurrenceBonus ex a b =
     (case ex of
        None \<Rightarrow> 0
      | Some ds \<Rightarrow> if set (topicInDiscoveries ds a) \<inter> set (topicInDiscoveries ds b) = {}
                  then 0 else 3 / 10)"

definition spec_dream_similarity :: "discovery list option \<Rightarrow> real \<Rightarrow> interest_node \<Rightarrow> interest_node \<Rightarrow> real" where
  "spec_dream_similarity ex r a b =
     (4 / 10) * keywordJaccard a b + (3 / 10) * spec_sharedConnectionRatio a b
     + (2 / 10) * discoveryCooccurrenceBonus ex a b + (1 / 10) * r"

text \<open>
  The index pairs in the order the two loops of \<open>analyzeChainForConnections\<close> visit them,
  and the connection built for a pair with the random draw numbered \<open>d\<close>.
\<close>

definition index_pairs :: "nat \<Rightarrow> (nat \<times> nat) list" where
  "index_pairs n = concat (map (\<lambda>i. map (Pair i) [i + 2 ..< n]) [0 ..< n - 2])"

definition pair_connection :: "discovery list option \<Rightarrow> int \<Rightarrow> (nat \<Rightarrow> real) \<Rightarrow> interest_node list
    \<Rightarrow> (nat \<times> nat) \<times> nat \<Rightarrow> dream_connection" where
  "pair_connection ex now rnd chain p =
     (case p of ((i, j), d) \<Rightarrow>
        \<lparr> dc_from = topic (chain ! i), dc_to = topic (chain ! j),
          similarity = calculateDreamSimilarity ex (rnd d) (chain ! i) (chain ! j),
          distance = j - i, discoveredAt = now \<rparr>)"

text \<open>Two nodes that share one of their two connections; constant random sources.\<close>

definition node_a :: interest_node where
  "node_a = \<lparr> topic = ''alpha'', weight = 1 / 2, connections = [''gamma'', ''delta''],
              lastActive = 0, createdAt = 0, accessCount = 1, isCore = False,
              memoryType = ShortTerm, node_keywords = Some [''alpha''], promotedAt = None,
              dreamConnections = [] \<rparr>"

definition node_b :: interest_node where
  "node_b = \<lparr> topic = ''beta'', weight = 1 / 2, connections = [''gamma'', ''epsilon''],
              lastActive = 0, createdAt = 0, accessCount = 1, isCore = False,
              memoryType = ShortTerm, node_keywords = Some [''beta''], promotedAt = None,
              dreamConnections = [] \<rparr>"

definition zero_rnd :: "nat \<Rightarrow> real" where
  "zero_rnd n = 0"

definition busy_dreamer :: dreamer where
  "busy_dreamer = new_dreamer\<lparr> isDreaming := True \<rparr>"

definition half_rnd :: "nat \<Rightarrow> real" where
  "half_rnd n = 1 / 2"

text \<open>
  Genes within [0, 1], for one genome and for a population; a random source whose draws lie
  in [0, 1), as those of \<open>Math.random()\<close> do.
\<close>

definition in_unit :: "real \<Rightarrow> bool" where
  "in_unit x = (0 \<le> x \<and> x \<le> 1)"

definition genes_ok :: "genes \<Rightarrow> bool" where
  "genes_ok g =
     (in_unit (explorationBias g) \<and> in_unit (breadthPreference g) \<and> in_unit (recencyWeight g)
      \<and> in_unit (connectionAffinity g) \<and> in_unit (noveltySeeking g)
      \<and> in_unit (wikipedia (apiPreferences g)) \<and> in_unit (hackerNews (apiPreferences g))
      \<and> in_unit (reddit (apiPreferences g)) \<and> in_unit (openLibrary (apiPreferences g))
      \<and> in_unit (timePreference g) \<and> in_unit (riskTolerance g)
      \<and> in_unit (memoryInfluence g) \<and> in_unit (serendipityFactor g))"

definition unit_source :: "(nat \<Rightarrow> real) \<Rightarrow> bool" where
  "unit_source rnd = (\<forall>n. 0 \<le> rnd n \<and> rnd n < 1)"

definition population_ok :: "strategy list \<Rightarrow> bool" where
  "population_ok pop = (\<forall>s \<in> set pop. genes_ok (genes s))"

text \<open>
  The states of the strategy evolution that the program builds: the constructor, on an empty
  store or on what an earlier state stored, followed by any of \<open>selectStrategy\<close>,
  \<open>recordOutcome\<close>, \<open>evolve\<close> and \<open>reset\<close>, with the draws of \<open>Math.random()\<close> in [0, 1).
  \<open>genetics_inv\<close> is what all of them satisfy; \<open>fresh_genetics\<close> is the state after a first
  start.
\<close>

inductive genetics_reachable :: "genetics \<Rightarrow> bool" where
  gr_fresh: "unit_source rnd \<Longrightarrow> genetics_reachable (fst (GeneticEvolution now rnd k None))"
| gr_restart: "genetics_reachable g \<Longrightarrow> unit_source rnd
    \<Longrightarrow> genetics_reachable (fst (GeneticEvolution now rnd k (Some (savePopulation g))))"
| gr_select: "genetics_reachable g \<Longrightarrow> unit_source rnd \<Longrightarrow> selectStrategy now rnd k g = (sel, g', k')
    \<Longrightarrow> genetics_reachable g'"
| gr_record: "genetics_reachable g \<Longrightarrow> genetics_reachable (recordOutcome now i out g)"
| gr_evolve: "genetics_reachable g \<Longrightarrow> unit_source rnd \<Longrightarrow> evolve now rnd k g = Inr (ret, g', k')
    \<Longrightarrow> genetics_reachable g'"
| gr_reset: "genetics_reachable g \<Longrightarrow> unit_source rnd \<Longrightarrow> genetics_reachable (fst (reset now rnd k g))"

definition fresh_genetics :: genetics where
  "fresh_genetics = fst (GeneticEvolution 0 half_rnd 0 None)"

definition genetics_inv :: "genetics \<Rightarrow> bool" where
  "genetics_inv g =
     (genetics_cfg g = default_genetics_config
      \<and> length (population g) = populationSize (genetics_cfg g)
      \<and> population_ok (population g))"

text \<open>
  Notions for the core status of a node across the operations: two nodes with the same
  core flag and memory type; the flag implies the type \<open>Core\<close>; a node is not taken back to
  \<open>ShortTerm\<close>; a node changed outside its status and then re-evaluated by
  \<open>updateCoreStatus\<close>; a node left as it is or made \<open>LongTerm\<close>. \<open>room\<close> is the eviction step
  of \<open>addInterest\<close> on a full graph. \<open>brain_step\<close> is one operation on the graph, with any
  arguments, and \<open>reachable\<close> the graphs the operations build from an empty one.
\<close>

definition same_status :: "interest_node \<Rightarrow> interest_node \<Rightarrow> bool" where
  "same_status n n' = (isCore n' = isCore n \<and> memoryType n' = memoryType n)"

definition dream_kept :: "brain \<Rightarrow> brain \<Rightarrow> bool" where
  "dream_kept b b' = (keeps same_status b b' \<and> map fst (interests b') = map fst (interests b))"

definition core_inv :: "interest_node \<Rightarrow> bool" where
  "core_inv n = (isCore n \<longrightarrow> memoryType n = Core)"

definition no_regress :: "interest_node \<Rightarrow> interest_node \<Rightarrow> bool" where
  "no_regress n n' = (memoryType n' = ShortTerm \<longrightarrow> memoryType n = ShortTerm)"

definition settle :: "brain_config \<Rightarrow> interest_node \<Rightarrow> interest_node \<Rightarrow> bool" where
  "settle cfg n n' = (\<exists>m. same_status n m \<and> n' = update_core cfg m)"

definition nodes_ok :: "brain \<Rightarrow> bool" where
  "nodes_ok b = (\<forall>k n. map_of (interests b) k = Some n \<longrightarrow> core_inv n)"

definition brain_inv :: "brain \<Rightarrow> bool" where
  "brain_inv b = (distinct (map fst (interests b)) \<and> nodes_ok b)"

definition room :: "brain \<Rightarrow> brain" where
  "room b = (if length (interests b) \<ge> maxShortTermInterests (config b)
             then removeWeakestInterest b else b)"

definition promoted_rel :: "interest_node \<Rightarrow> interest_node \<Rightarrow> bool" where
  "promoted_rel n n' = (n' = n \<or> memoryType n' = LongTerm)"

inductive brain_step :: "brain \<Rightarrow> brain \<Rightarrow> bool" where
  step_add: "brain_step b (addInterest now tp s b)"
| step_reinforce: "brain_step b (reinforceInterest now t s b)"
| step_decay: "brain_step b (applyDecay now b)"
| step_remove: "brain_step b (removeInterest t b)"
| step_consolidate: "consolidate now (Some b) m = (res, Some b', m') \<Longrightarrow> brain_step b b'"
| step_dream: "dream now rnd k ex d (Some b) = Inr (res, d', Some b', k') \<Longrightarrow> brain_step b b'"

inductive reachable :: "brain \<Rightarrow> bool" where
  reachable_init: "interests b = [] \<Longrightarrow> reachable b"
| reachable_step: "reachable b \<Longrightarrow> brain_step b b' \<Longrightarrow> reachable b'"

text \<open>The example graph after a strong reinforcement of ``machine learning'' at time 3000.\<close>

definition core_brain :: brain where
  "core_brain = addInterest 3000 ''machine learning'' (3 / 10) demo_brain"

text \<open>
  A graph of four topics, and the same graph after one dream session at time 5000 with
  every random draw at 1/2.
\<close>

definition four_brain :: brain where
  "four_brain = addInterest 4000 ''deep neural networks'' (1 / 10)
                  (addInterest 3000 ''neural networks'' (1 / 10) demo_brain)"

definition dream_brain :: "js_error + dream_result \<times> dreamer \<times> brain option \<times> nat \<Rightarrow> brain option" where
  "dream_brain r = (case r of Inl _ \<Rightarrow> None | Inr (_, _, wb, _) \<Rightarrow> wb)"

definition dreamt_brain :: brain where
  "dreamt_brain =
     (case dream_brain (dream 5000 half_rnd 0 None new_dreamer (Some four_brain)) of
        None \<Rightarrow> four_brain | Some b \<Rightarrow> b)"

section \<open>Properties of the interest graph\<close>

lemma length_js_set: "length (js_set xs) = card (set xs)"
  by (simp add: js_set_def length_remdups_card_conv)

lemma set_js_set [simp]: "set (js_set xs) = set xs"
  by (simp add: js_set_def)

lemma distinct_js_set [simp]: "distinct (js_set xs)"
  by (simp add: js_set_def)

lemma calculateSimilarity_card:
  "calculateSimilarity a b =
     (if extractKeywords a = [] \<or> extractKeywords b = [] then 0
      else real (card (set (extractKeywords a) \<inter> set (extractKeywords b)))
           / real (card (set (extractKeywords a) \<union> set (extractKeywords b))))"
proof -
  have inter: "length (filter (\<lambda>k. k \<in> set (js_set ys)) (js_set xs)) = card (set xs \<inter> set ys)"
    for xs ys :: "string list"
  proof -
    have "{k. k \<in> set ys} \<inter> set xs = set xs \<inter> set ys" by blast
    then show ?thesis by (simp add: distinct_length_filter)
  qed
  have empty: "js_set xs = [] \<longleftrightarrow> xs = []" for xs :: "string list"
    by (simp add: js_set_def)
  have union: "length (js_set (js_set xs @ js_set ys)) = card (set xs \<union> set ys)"
    for xs ys :: "string list"
    by (simp add: length_js_set)
  show ?thesis
    unfolding calculateSimilarity_def Let_def inter union
    by (simp add: empty)
qed

text \<open>
  Claim C7. The similarity of two topics is symmetric and lies between 0 and 1; a topic
  with at least one keyword has similarity 1 to itself; the similarity is 0 as soon as
  one of the two topics has no keyword. The function takes and returns no engine state.
\<close>

theorem calculateSimilarity_symmetric_bounded:
  "calculateSimilarity a b = calculateSimilarity b a
   \<and> 0 \<le> calculateSimilarity a b \<and> calculateSimilarity a b \<le> 1
   \<and> (extractKeywords a \<noteq> [] \<longrightarrow> calculateSimilarity a a = 1)
   \<and> (extractKeywords a = [] \<or> extractKeywords b = [] \<longrightarrow> calculateSimilarity a b = 0)"
proof -
  let ?A = "set (extractKeywords a)" and ?B = "set (extractKeywords b)"
  have sym: "calculateSimilarity a b = calculateSimilarity b a"
    by (simp add: calculateSimilarity_card Int_commute Un_commute)
  have "card (?A \<inter> ?B) \<le> card (?A \<union> ?B)"
    by (rule card_mono) auto
  moreover have "extractKeywords a \<noteq> [] \<Longrightarrow> 0 < card (?A \<union> ?B)"
    by (simp add: card_gt_0_iff)
  ultimately have le: "calculateSimilarity a b \<le> 1"
    by (simp add: calculateSimilarity_card divide_le_eq_1)
  have ge: "0 \<le> calculateSimilarity a b"
    by (simp add: calculateSimilarity_card)
  have self: "extractKeywords a \<noteq> [] \<longrightarrow> calculateSimilarity a a = 1"
    by (simp add: calculateSimilarity_card card_gt_0_iff)
  have zero: "extractKeywords a = [] \<or> extractKeywords b = [] \<longrightarrow> calculateSimilarity a b = 0"
    by (simp add: calculateSimilarity_card)
  from sym le ge self zero show ?thesis by blast
qed

theorem calculateSimilarity_symmetric_bounded_witness:
  "extractKeywords ''machine learning'' \<noteq> []
   \<and> calculateSimilarity ''machine learning'' ''machine learning'' = 1
   \<and> extractKeywords ''of'' = []
   \<and> calculateSimilarity ''of'' ''machine learning'' = 0"
proof -
  have h1: "extractKeywords ''machine learning'' \<noteq> []" by code_simp
  have h2: "extractKeywords ''of'' = []" by code_simp
  from calculateSimilarity_symmetric_bounded [of "''machine learning''" "''machine learning''"] h1
  have "calculateSimilarity ''machine learning'' ''machine learning'' = 1" by blast
  moreover from calculateSimilarity_symmetric_bounded [of "''of''" "''machine learning''"] h2
  have "calculateSimilarity ''of'' ''machine learning'' = 0" by blast
  ultimately show ?thesis using h1 h2 by blast
qed

subsection \<open>Association lists\<close>

lemma map_entry_keys [simp]: "map fst (AList.map_entry k f xs) = map fst xs"
  by (induction xs) auto

lemma map_entry_absent: "map_of g c = None \<Longrightarrow> AList.map_entry c f g = g"
  by (induction g) (auto split: if_splits)

lemma map_of_map_entry_eq:
  "map_of (AList.map_entry k f xs) k' = (if k' = k then map_option f (map_of xs k) else map_of xs k')"
  by (induction xs) auto

lemma map_of_fold_map_entry:
  "map_of (fold (\<lambda>c. AList.map_entry c f) cs g) k = map_option (f ^^ count_list cs k) (map_of g k)"
proof (induction cs arbitrary: g)
  case Nil
  then show ?case by (simp add: option.map_ident)
next
  case (Cons c cs)
  show ?case
  proof (cases "k = c")
    case True
    show ?thesis
      unfolding True
      by (cases "map_of g c") (simp_all add: Cons.IH [unfolded True] map_of_map_entry_eq funpow_swap1)
  next
    case False
    then show ?thesis by (simp add: Cons.IH map_of_map_entry_eq)
  qed
qed

lemma guarded_entry:
  "(case map_of g c of None \<Rightarrow> g | Some _ \<Rightarrow> AList.map_entry c f g) = AList.map_entry c f g"
  by (simp add: map_entry_absent split: option.splits)

lemma map_of_map_values:
  "map_of (map (\<lambda>(t, n). (t, f n)) xs) k = map_option f (map_of xs k)"
  by (induction xs) auto

lemma count_list_distinct: "distinct xs \<Longrightarrow> x \<in> set xs \<Longrightarrow> count_list xs x = 1"
  by (induction xs) (auto simp: count_list_0_iff)

subsection \<open>Reinforcement\<close>

lemma map_of_update_core:
  "map_of (interests (updateCoreStatus b)) k = map_option (update_core (config b)) (map_of (interests b) k)"
  by (simp add: updateCoreStatus_def map_of_map_values)

lemma update_core_fields [simp]:
  "weight (update_core cfg n) = weight n"
  "lastActive (update_core cfg n) = lastActive n"
  "accessCount (update_core cfg n) = accessCount n"
  "connections (update_core cfg n) = connections n"
  "topic (update_core cfg n) = topic n"
  by (simp_all add: update_core_def Let_def)

lemma config_updateCoreStatus [simp]: "config (updateCoreStatus b) = config b"
  by (simp add: updateCoreStatus_def)

lemma config_reinforceInterest [simp]: "config (reinforceInterest now t s b) = config b"
  by (simp add: reinforceInterest_def Let_def split: option.splits)

lemma map_of_reinforceInterest:
  assumes "map_of (interests b) t = Some node"
  shows "map_of (interests (reinforceInterest now t s b)) k =
           map_option (bumped (config b) now s ^^ count_list (connections node) k)
             (if k = t then Some (reinforced (config b) now s node) else map_of (interests b) k)"
proof -
  have bump: "bumped (config b) now s =
      (\<lambda>n. n\<lparr> weight := min (weight n + s * reinforcementFactor (config b)) (maxWeight (config b)),
               lastActive := now \<rparr>)"
    by (rule ext) (simp add: bumped_def)
  show ?thesis
    using assms
    by (simp add: reinforceInterest_def Let_def guarded_entry map_of_fold_map_entry
        map_of_map_entry_eq reinforced_def bump)
qed

lemma addInterest_existing:
  assumes "map_of (interests b) (trim (toLowerCase tp)) = Some node"
  shows "addInterest now tp s b = updateCoreStatus (reinforceInterest now (trim (toLowerCase tp)) s b)"
  using assms by (simp add: addInterest_def Let_def)

lemma demo_interests:
  "interests demo_brain = [(''machine learning'', ml_node), (''deep learning'', dl_node)]"
  by code_simp

lemma demo_config: "config demo_brain = default_brain_config"
  by code_simp

lemma demo_normalized: "trim (toLowerCase '' Machine Learning '') = ''machine learning''"
  by code_simp

text \<open>
  Claim C6. Adding a topic that exists (under its normalised key) sets the weight of its
  node to exactly min(old weight + strength, maxWeight), sets \<open>lastActive\<close> to the current
  time, increments \<open>accessCount\<close> by one, and adds strength * reinforcementFactor, capped at
  maxWeight, to the weight of every directly connected node of the graph; from weight 0.3
  with strength 0.1 the new weight is min(0.4, maxWeight). The node's connection list is
  that of a graph the engine maintains: without repetition and without the node itself.
\<close>

theorem addInterest_reinforces:
  assumes present: "map_of (interests b) (trim (toLowerCase tp)) = Some node"
      and noself: "trim (toLowerCase tp) \<notin> set (connections node)"
      and dist: "distinct (connections node)"
  shows "\<exists>node'. addInterest_result now tp strength b = Some node'
           \<and> weight node' = min (weight node + strength) (maxWeight (config b))
           \<and> lastActive node' = now
           \<and> accessCount node' = accessCount node + 1
           \<and> (weight node = 3 / 10 \<and> strength = 1 / 10
                \<longrightarrow> weight node' = min (4 / 10) (maxWeight (config b)))
           \<and> (\<forall>c \<in> set (connections node). \<forall>m. map_of (interests b) c = Some m \<longrightarrow>
                 (\<exists>m'. map_of (interests (addInterest now tp strength b)) c = Some m'
                    \<and> weight m' = min (weight m + strength * reinforcementFactor (config b))
                                     (maxWeight (config b))))"
proof -
  let ?t = "trim (toLowerCase tp)"
  let ?b' = "addInterest now tp strength b"
  have look: "map_of (interests ?b') k =
      map_option (update_core (config b))
        (map_option (bumped (config b) now strength ^^ count_list (connections node) k)
           (if k = ?t then Some (reinforced (config b) now strength node)
            else map_of (interests b) k))" for k
    by (simp add: addInterest_existing [OF present] map_of_update_core
        map_of_reinforceInterest [OF present])
  have zero: "count_list (connections node) ?t = 0"
    using noself by (simp add: count_list_0_iff)
  have self: "addInterest_result now tp strength b =
      Some (update_core (config b) (reinforced (config b) now strength node))"
    by (simp add: addInterest_result_def look zero)
  have nb: "\<exists>m'. map_of (interests ?b') c = Some m'
              \<and> weight m' = min (weight m + strength * reinforcementFactor (config b))
                               (maxWeight (config b))"
    if "c \<in> set (connections node)" and "map_of (interests b) c = Some m" for c m
  proof -
    from that noself have "c \<noteq> ?t" by auto
    moreover from that dist have "count_list (connections node) c = 1"
      by (simp add: count_list_distinct)
    ultimately show ?thesis using that by (simp add: look bumped_def)
  qed
  show ?thesis
    unfolding self using nb by (auto simp: reinforced_def)
qed

theorem addInterest_reinforces_witness:
  "\<exists>node'. addInterest_result 3000 '' Machine Learning '' (1 / 10) demo_brain = Some node'
     \<and> weight node' = 13 / 20 \<and> lastActive node' = 3000 \<and> accessCount node' = 2
     \<and> (\<exists>m'. map_of (interests (addInterest 3000 '' Machine Learning '' (1 / 10) demo_brain))
                 ''deep learning'' = Some m' \<and> weight m' = 53 / 100)"
proof -
  have p: "map_of (interests demo_brain) (trim (toLowerCase '' Machine Learning '')) = Some ml_node"
    by (simp add: demo_normalized demo_interests)
  have s: "trim (toLowerCase '' Machine Learning '') \<notin> set (connections ml_node)"
    by (simp add: demo_normalized ml_node_def)
  have d: "distinct (connections ml_node)" by (simp add: ml_node_def)
  from addInterest_reinforces [OF p s d, of 3000 "1 / 10"]
  show ?thesis
    by (auto simp add: demo_interests demo_config default_brain_config_def ml_node_def dl_node_def)
qed

text \<open>
  Claim C10. Reinforcing an existing topic sets \<open>lastActive\<close> of every directly connected
  node of the graph to the current time, beyond the propagated weight gain: at that moment
  such a neighbour has decay amount 0 and the maximal recency score 1.
\<close>

theorem reinforceInterest_touches_neighbours:
  assumes present: "map_of (interests b) t = Some node"
      and nb: "c \<in> set (connections node)"
      and other: "map_of (interests b) c = Some m"
  shows "\<exists>m'. map_of (interests (reinforceInterest now t s b)) c = Some m'
           \<and> lastActive m' = now
           \<and> decayAmount cfg now m' = 0
           \<and> breakdown_recency (scoreForPromotion now m') = 1"
proof -
  from nb obtain j where j: "count_list (connections node) c = Suc j"
    by (cases "count_list (connections node) c") (simp_all add: count_list_0_iff)
  let ?x = "if c = t then reinforced (config b) now s node else m"
  let ?m' = "bumped (config b) now s ((bumped (config b) now s ^^ j) ?x)"
  have "map_of (interests (reinforceInterest now t s b)) c = Some ?m'"
    using other by (simp add: map_of_reinforceInterest [OF present] j)
  moreover have "lastActive ?m' = now" by (simp add: bumped_def)
  ultimately show ?thesis
    by (simp add: decayAmount_def scoreForPromotion_def Let_def)
qed

theorem reinforceInterest_touches_neighbours_witness:
  "\<exists>m'. map_of (interests (reinforceInterest 3000 ''machine learning'' (1 / 10) demo_brain))
            ''deep learning'' = Some m'
     \<and> lastActive dl_node = 2000 \<and> lastActive m' = 3000
     \<and> decayAmount default_brain_config 3000 m' = 0
     \<and> breakdown_recency (scoreForPromotion 3000 m') = 1"
proof -
  have p: "map_of (interests demo_brain) ''machine learning'' = Some ml_node"
    by (simp add: demo_interests)
  have n: "''deep learning'' \<in> set (connections ml_node)" by (simp add: ml_node_def)
  have q: "map_of (interests demo_brain) ''deep learning'' = Some dl_node"
    by (simp add: demo_interests)
  from reinforceInterest_touches_neighbours [OF p n q, of 3000 "1 / 10" default_brain_config]
  show ?thesis by (auto simp: dl_node_def)
qed

subsection \<open>Decay\<close>

lemma keepsI:
  "(\<And>k n'. map_of (interests b') k = Some n' \<Longrightarrow> \<exists>n. map_of (interests b) k = Some n \<and> R n n') \<Longrightarrow> keeps R b b'"
  by (simp add: keeps_def)

lemma keepsD:
  "keeps R b b' \<Longrightarrow> map_of (interests b') k = Some n' \<Longrightarrow> \<exists>n. map_of (interests b) k = Some n \<and> R n n'"
  by (simp add: keeps_def)

lemma keeps_refl: "(\<And>n. R n n) \<Longrightarrow> keeps R b b"
  by (simp add: keeps_def)

lemma keeps_trans:
  assumes "keeps R b b'" and "keeps S b' b''" and "\<And>x y z. R x y \<Longrightarrow> S y z \<Longrightarrow> T x z"
  shows "keeps T b b''"
proof (rule keepsI)
  fix k n''
  assume "map_of (interests b'') k = Some n''"
  with assms(2) obtain n' where n': "map_of (interests b') k = Some n'" "S n' n''"
    by (auto dest: keepsD)
  with assms(1) obtain n where "map_of (interests b) k = Some n" "R n n'"
    by (auto dest: keepsD)
  with n' assms(3) show "\<exists>n. map_of (interests b) k = Some n \<and> T n n''" by blast
qed

lemma funpow_connections:
  "((\<lambda>x. x\<lparr> connections := f (connections x) \<rparr>) ^^ j) n = n\<lparr> connections := (f ^^ j) (connections n) \<rparr>"
  by (induction j) simp_all

lemma config_removeInterest [simp]: "config (removeInterest t b) = config b"
  by (simp add: removeInterest_def Let_def split: option.splits)

lemma config_fold_removeInterest [simp]: "config (fold removeInterest ts b) = config b"
  by (induction ts arbitrary: b) simp_all

lemma keeps_removeInterest: "keeps only_connections b (removeInterest t b)"
proof (cases "map_of (interests b) t")
  case None
  then show ?thesis by (simp add: removeInterest_def keeps_def only_connections_def)
next
  case (Some node)
  show ?thesis
  proof (rule keepsI)
    fix k n'
    assume a: "map_of (interests (removeInterest t b)) k = Some n'"
    show "\<exists>n. map_of (interests b) k = Some n \<and> only_connections n n'"
    proof (cases "k = t")
      case True
      with a Some show ?thesis by (simp add: removeInterest_def Let_def AList.delete_conv')
    next
      case False
      with a Some show ?thesis
        by (auto simp: removeInterest_def Let_def AList.delete_conv' map_of_fold_map_entry
            funpow_connections only_connections_def)
    qed
  qed
qed

lemma only_connections_trans:
  "only_connections x y \<Longrightarrow> only_connections y z \<Longrightarrow> only_connections x z"
  by (cases x, cases y, cases z) (simp add: only_connections_def)

lemma keeps_fold_removeInterest: "keeps only_connections b (fold removeInterest ts b)"
proof (induction ts arbitrary: b)
  case Nil
  show ?case by (simp add: keeps_refl only_connections_def)
next
  case (Cons t ts)
  show ?case
    using keeps_trans [OF keeps_removeInterest Cons.IH only_connections_trans]
    by simp
qed

lemma decayAmount_nonneg:
  "0 \<le> decayRate cfg \<Longrightarrow> lastActive n \<le> now \<Longrightarrow> 0 \<le> decayAmount cfg now n"
  by (simp add: decayAmount_def Let_def)

lemma only_connections_weight: "only_connections n n' \<Longrightarrow> weight n' = weight n"
  by (cases n, cases n') (simp add: only_connections_def)

lemma applyDecay_lookup:
  assumes "map_of (interests (applyDecay now b)) t = Some n'"
  shows "\<exists>n. map_of (interests b) t = Some n
           \<and> weight n' = max (weight n - decayAmount (config b) now n) 0"
proof -
  let ?decayed = "map (\<lambda>(t, node). (t, decay_node (config b) now node)) (interests b)"
  let ?b0 = "b\<lparr> interests := ?decayed \<rparr>"
  let ?rm = "map fst (filter (\<lambda>(t, node). weight node < minWeight (config b)) ?decayed)"
  let ?b1 = "fold removeInterest ?rm ?b0"
  have eq: "applyDecay now b = updateCoreStatus ?b1"
    by (simp add: applyDecay_def Let_def)
  from assms obtain n1 where n1: "map_of (interests ?b1) t = Some n1" "weight n' = weight n1"
    unfolding eq by (auto simp: map_of_update_core)
  from keepsD [OF keeps_fold_removeInterest n1(1)]
  obtain n0 where n0: "map_of ?decayed t = Some n0" "only_connections n0 n1"
    by auto
  from n0(1) obtain n where n: "map_of (interests b) t = Some n" "n0 = decay_node (config b) now n"
    by (auto simp: map_of_map_values)
  from n n0(2) n1(2) show ?thesis
    by (auto simp: only_connections_weight decay_node_def)
qed

lemma removeInterest_absent: "map_of (interests (removeInterest t b)) t = None"
  by (cases "map_of (interests b) t") (simp_all add: removeInterest_def Let_def AList.delete_conv')

lemma absent_stays:
  assumes "map_of (interests b) t = None"
  shows "map_of (interests (fold removeInterest ts b)) t = None"
proof (cases "map_of (interests (fold removeInterest ts b)) t")
  case None
  then show ?thesis .
next
  case (Some n')
  from keepsD [OF keeps_fold_removeInterest Some] assms show ?thesis by simp
qed

lemma removed_absent:
  "t \<in> set ts \<Longrightarrow> map_of (interests (fold removeInterest ts b)) t = None"
proof (induction ts arbitrary: b)
  case Nil
  then show ?case by simp
next
  case (Cons x ts)
  show ?case
  proof (cases "t = x")
    case True
    have "map_of (interests (removeInterest x b)) x = None" by (rule removeInterest_absent)
    then have "map_of (interests (fold removeInterest ts (removeInterest x b))) x = None"
      by (rule absent_stays)
    then show ?thesis by (simp add: True)
  next
    case False
    with Cons.prems have "t \<in> set ts" by simp
    from Cons.IH [OF this] show ?thesis by simp
  qed
qed

lemma applyDecay_survivor:
  assumes before: "map_of (interests b) t = Some n"
      and after: "map_of (interests (applyDecay now b)) t = Some n'"
  shows "minWeight (config b) \<le> weight n'"
proof (rule ccontr)
  assume "\<not> minWeight (config b) \<le> weight n'"
  then have low: "weight n' < minWeight (config b)" by simp
  let ?decayed = "map (\<lambda>(t, node). (t, decay_node (config b) now node)) (interests b)"
  let ?ts = "map fst (filter (\<lambda>(t, node). weight node < minWeight (config b)) ?decayed)"
  from applyDecay_lookup [OF after] before
  have w: "weight n' = max (weight n - decayAmount (config b) now n) 0" by simp
  from before have "map_of ?decayed t = Some (decay_node (config b) now n)"
    by (simp add: map_of_map_values)
  then have "(t, decay_node (config b) now n) \<in> set ?decayed" by (rule map_of_SomeD)
  moreover have "weight (decay_node (config b) now n) < minWeight (config b)"
    using low w by (simp add: decay_node_def)
  ultimately have "t \<in> set ?ts" by force
  from removed_absent [OF this, of "b\<lparr> interests := ?decayed \<rparr>"]
  have "map_of (interests (applyDecay now b)) t = None"
    by (simp add: applyDecay_def Let_def map_of_update_core)
  with after show False by simp
qed

text \<open>
  Claim C5, amended. For every node present before and after a decay tick, under the
  engine's configuration: the weight after the tick is the weight before minus the decay
  amount, floored at 0, so it is never negative; and it is at most the weight before
  whenever the node was last active no later than the clock reading of the tick.
\<close>

theorem applyDecay_monotone:
  assumes before: "map_of (interests b) t = Some n"
      and after: "map_of (interests (applyDecay now b)) t = Some n'"
      and cfg: "config b = default_brain_config"
  shows "0 \<le> weight n'
         \<and> weight n' = max (weight n - decayAmount (config b) now n) 0
         \<and> (lastActive n \<le> now \<longrightarrow> weight n' \<le> weight n)"
proof -
  from applyDecay_lookup [OF after] before
  have w: "weight n' = max (weight n - decayAmount (config b) now n) 0" by auto
  have mono: "weight n' \<le> weight n" if clock: "lastActive n \<le> now"
  proof -
    have "0 \<le> decayRate (config b)" by (simp add: cfg default_brain_config_def)
    from decayAmount_nonneg [OF this clock] have d: "0 \<le> decayAmount (config b) now n" .
    from applyDecay_survivor [OF before after] have "0 < weight n'"
      by (simp add: cfg default_brain_config_def)
    with w d show ?thesis by auto
  qed
  from w mono show ?thesis by auto
qed

lemma demo_decayed:
  "map_of (interests (applyDecay 3000 demo_brain)) ''machine learning''
     = Some (ml_node\<lparr> weight := 7 / 20 \<rparr>)"
  by code_simp

theorem applyDecay_monotone_witness:
  "\<exists>n'. map_of (interests (applyDecay 3000 demo_brain)) ''machine learning'' = Some n'
     \<and> config demo_brain = default_brain_config \<and> lastActive ml_node \<le> 3000
     \<and> weight ml_node = 11 / 20 \<and> weight n' = 7 / 20
     \<and> weight n' \<le> weight ml_node \<and> 0 \<le> weight n'"
proof -
  have before: "map_of (interests demo_brain) ''machine learning'' = Some ml_node"
    by (simp add: demo_interests)
  have clock: "lastActive ml_node \<le> 3000" by (simp add: ml_node_def)
  from applyDecay_monotone [OF before demo_decayed demo_config] clock
  have "weight (ml_node\<lparr> weight := 7 / 20 \<rparr>) \<le> weight ml_node
        \<and> 0 \<le> weight (ml_node\<lparr> weight := 7 / 20 \<rparr>)"
    by blast
  with clock show ?thesis by (simp add: demo_decayed demo_config ml_node_def)
qed

text \<open>
  The weight after a tick can exceed the weight before: \<open>applyDecay\<close> takes the age of a node
  as \<open>now - lastActive\<close> without a floor, and a clock reading earlier than \<open>lastActive\<close>
  (the clock of \<open>Date.now()\<close> can be set back) gives a negative decay amount. The node
  ``machine learning'', last active at 1000 with weight 11/20, has weight 3/5 after a tick
  read at 500.
\<close>

theorem applyDecay_clock_counterexample:
  "map_of (interests demo_brain) ''machine learning'' = Some ml_node
   \<and> weight ml_node = 11 / 20 \<and> lastActive ml_node = 1000
   \<and> map_option weight (map_of (interests (applyDecay 500 demo_brain)) ''machine learning'')
       = Some (3 / 5)"
proof -
  have "map_option weight (map_of (interests (applyDecay 500 demo_brain)) ''machine learning'')
       = Some (3 / 5)"
    by code_simp
  then show ?thesis by (simp add: demo_interests ml_node_def)
qed

section \<open>Properties of the consolidator\<close>

text \<open>
  Claim C9. The promotion score of a node is
  0.30 * min(weight / maxWeight, 1) + 0.30 * min(|connections| / 10, 1)
  + 0.20 * min(log(accessCount + 1) / log 51, 1) + 0.20 * max(1 - age / (7 days), 0),
  where age is the current time minus the node's \<open>lastActive\<close>, in milliseconds, and
  maxWeight is the engine's maximal weight 1.
\<close>

theorem scoreForPromotion_formula:
  "total (scoreForPromotion now node) =
     (30 / 100) * min (weight node / maxWeight default_brain_config) 1
     + (30 / 100) * min (real (length (connections node)) / 10) 1
     + (20 / 100) * min (ln (real (accessCount node + 1)) / ln 51) 1
     + (20 / 100) * max (1 - real_of_int (now - lastActive node) / 604800000) 0"
  by (simp add: scoreForPromotion_def default_brain_config_def Let_def add.commute)

lemma promote_cfg [simp]: "memory_cfg (snd (promoteToLongTerm now key (b, m))) = memory_cfg m"
  by (simp add: promoteToLongTerm_def Let_def split: option.splits)

lemma promote_keys [simp]:
  "map fst (interests (fst (promoteToLongTerm now key (b, m)))) = map fst (interests b)"
  by (simp add: promoteToLongTerm_def Let_def split: option.splits)

lemma promote_other:
  "k \<noteq> key \<Longrightarrow> map_of (interests (fst (promoteToLongTerm now key (b, m)))) k = map_of (interests b) k"
  by (simp add: promoteToLongTerm_def Let_def map_of_map_entry_eq split: option.splits)

lemma consolidate_step_keys [simp]:
  "map fst (interests (fst (snd (consolidate_step now key (res, b, m))))) = map fst (interests b)"
  by (simp add: consolidate_step_def Let_def split: option.splits)

lemma consolidate_step_cfg [simp]:
  "memory_cfg (snd (snd (consolidate_step now key (res, b, m)))) = memory_cfg m"
  by (simp add: consolidate_step_def Let_def split: option.splits)

lemma consolidate_step_weak:
  assumes "map_of (interests b) k = Some n"
      and "total (scoreForPromotion now n) < promotionThreshold (memory_cfg m)"
  shows "map_of (interests (fst (snd (consolidate_step now key (res, b, m))))) k = Some n
         \<and> set (forgotten res) \<subseteq> set (forgotten (fst (consolidate_step now key (res, b, m))))
         \<and> (key = k \<and> weight n < 1 / 10
              \<longrightarrow> (topic n, weight n) \<in> set (forgotten (fst (consolidate_step now key (res, b, m)))))"
proof (cases "key = k")
  case True
  with assms show ?thesis by (auto simp: consolidate_step_def Let_def)
next
  case False
  with assms show ?thesis
    by (auto simp: consolidate_step_def Let_def promote_other split: option.splits)
qed

lemma consolidate_fold_keys:
  "map fst (interests (fst (snd (fold (consolidate_step now) ks (res, b, m))))) = map fst (interests b)"
proof (induction ks arbitrary: res b m)
  case Nil
  show ?case by simp
next
  case (Cons key ks)
  obtain res1 b1 m1 where st: "consolidate_step now key (res, b, m) = (res1, b1, m1)"
    by (cases "consolidate_step now key (res, b, m)") auto
  have "map fst (interests b1) = map fst (interests b)"
    using consolidate_step_keys [of now key res b m] by (simp add: st)
  then show ?case by (simp add: st Cons.IH)
qed

lemma consolidate_fold_weak:
  assumes "map_of (interests b) k = Some n"
      and "total (scoreForPromotion now n) < promotionThreshold (memory_cfg m)"
  shows "map_of (interests (fst (snd (fold (consolidate_step now) ks (res, b, m))))) k = Some n
         \<and> set (forgotten res) \<subseteq> set (forgotten (fst (fold (consolidate_step now) ks (res, b, m))))
         \<and> (k \<in> set ks \<and> weight n < 1 / 10
              \<longrightarrow> (topic n, weight n) \<in> set (forgotten (fst (fold (consolidate_step now) ks (res, b, m)))))"
  using assms
proof (induction ks arbitrary: res b m)
  case Nil
  then show ?case by simp
next
  case (Cons key ks)
  obtain res1 b1 m1 where st: "consolidate_step now key (res, b, m) = (res1, b1, m1)"
    by (cases "consolidate_step now key (res, b, m)") auto
  have s1: "map_of (interests b1) k = Some n" "set (forgotten res) \<subseteq> set (forgotten res1)"
    "key = k \<and> weight n < 1 / 10 \<longrightarrow> (topic n, weight n) \<in> set (forgotten res1)"
    using consolidate_step_weak [OF Cons.prems, of key res] unfolding st by simp_all
  have cfg: "memory_cfg m1 = memory_cfg m"
    using consolidate_step_cfg [of now key res b m] by (simp add: st)
  from Cons.IH [OF s1(1), of m1 res1] Cons.prems(2) cfg
  have ih: "map_of (interests (fst (snd (fold (consolidate_step now) ks (res1, b1, m1))))) k = Some n"
    "set (forgotten res1) \<subseteq> set (forgotten (fst (fold (consolidate_step now) ks (res1, b1, m1))))"
    "k \<in> set ks \<and> weight n < 1 / 10
       \<longrightarrow> (topic n, weight n) \<in> set (forgotten (fst (fold (consolidate_step now) ks (res1, b1, m1))))"
    by simp_all
  from s1 ih show ?case by (auto simp: st)
qed

text \<open>
  Claim C8. \<open>consolidate()\<close> removes no node from the interest graph: the keys of the
  graph are the same after the call, in the same order, and every short-term node with
  weight below 0.1 whose score is below the promotion threshold is reported in the list
  \<open>forgotten\<close> of the result and is still in the graph, unchanged.
\<close>

theorem consolidate_reports_without_removing:
  assumes run: "consolidate now (Some b) m = (results, wb', m')"
  shows "\<exists>b'. wb' = Some b'
           \<and> map fst (interests b') = map fst (interests b)
           \<and> (\<forall>k n. map_of (interests b) k = Some n \<and> memoryType n = ShortTerm
                     \<and> weight n < 1 / 10
                     \<and> total (scoreForPromotion now n) < promotionThreshold (memory_cfg m)
                 \<longrightarrow> (topic n, weight n) \<in> set (forgotten results)
                     \<and> map_of (interests b') k = Some n)"
proof -
  let ?ks = "map fst (filter (\<lambda>(t, node). memoryType node = ShortTerm) (interests b))"
  let ?res0 = "\<lparr> promoted = [], forgotten = [], clustered = [], timestamp = Some now \<rparr>"
  let ?st = "fold (consolidate_step now) ?ks (?res0, b, m)"
  from run have wb': "wb' = Some (fst (snd ?st))"
    and res: "forgotten results = forgotten (fst ?st)"
    by (auto simp: consolidate_def Let_def)
  have keys: "map fst (interests (fst (snd ?st))) = map fst (interests b)"
    by (rule consolidate_fold_keys)
  have weak: "(topic n, weight n) \<in> set (forgotten results) \<and> map_of (interests (fst (snd ?st))) k = Some n"
    if "map_of (interests b) k = Some n" "memoryType n = ShortTerm" "weight n < 1 / 10"
       "total (scoreForPromotion now n) < promotionThreshold (memory_cfg m)" for k n
  proof -
    from that(1) have "(k, n) \<in> set (interests b)" by (rule map_of_SomeD)
    with that(2) have "k \<in> set ?ks" by force
    with consolidate_fold_weak [OF that(1) that(4), of ?ks ?res0] that(3) res
    show ?thesis by simp
  qed
  from wb' keys weak show ?thesis by blast
qed

lemma weak_interests:
  "interests weak_brain = [(''machine learning'', ml_node\<lparr> weight := 1 / 20 \<rparr>),
                          (''deep learning'', dl_node\<lparr> weight := 1 / 10 \<rparr>)]"
  by code_simp

lemma total_breakdown:
  "total (scoreForPromotion now n) =
     breakdown_weight (scoreForPromotion now n) * (30 / 100)
     + breakdown_connections (scoreForPromotion now n) * (30 / 100)
     + breakdown_access (scoreForPromotion now n) * (20 / 100)
     + breakdown_recency (scoreForPromotion now n) * (20 / 100)"
  by (simp add: scoreForPromotion_def Let_def)

lemma breakdown_access_le: "breakdown_access (scoreForPromotion now n) \<le> 1"
  by (simp add: scoreForPromotion_def Let_def)

lemma weak_score:
  "total (scoreForPromotion 6000 (ml_node\<lparr> weight := 1 / 20 \<rparr>))
     < promotionThreshold (memory_cfg new_memory)"
proof -
  let ?n = "ml_node\<lparr> weight := 1 / 20 \<rparr>"
  have w: "breakdown_weight (scoreForPromotion 6000 ?n) = 1 / 20"
    by (simp add: scoreForPromotion_def Let_def ml_node_def)
  have c: "breakdown_connections (scoreForPromotion 6000 ?n) = 1 / 10"
    by (simp add: scoreForPromotion_def Let_def ml_node_def)
  have r: "breakdown_recency (scoreForPromotion 6000 ?n) \<le> 1"
    by (simp add: scoreForPromotion_def Let_def ml_node_def)
  have "total (scoreForPromotion 6000 ?n) < 6 / 10"
    using breakdown_access_le [of 6000 ?n] r
    unfolding total_breakdown w c by linarith
  then show ?thesis
    by (simp add: new_memory_def default_memory_config_def)
qed

theorem consolidate_reports_without_removing_witness:
  "(''machine learning'', 1 / 20) \<in> set (forgotten (fst (consolidate 6000 (Some weak_brain) new_memory)))
   \<and> (\<exists>b'. fst (snd (consolidate 6000 (Some weak_brain) new_memory)) = Some b'
          \<and> map fst (interests b') = [''machine learning'', ''deep learning'']
          \<and> map_of (interests b') ''machine learning'' = Some (ml_node\<lparr> weight := 1 / 20 \<rparr>))"
proof -
  have run: "consolidate 6000 (Some weak_brain) new_memory =
      (fst (consolidate 6000 (Some weak_brain) new_memory),
       fst (snd (consolidate 6000 (Some weak_brain) new_memory)),
       snd (snd (consolidate 6000 (Some weak_brain) new_memory)))"
    by simp
  have p: "map_of (interests weak_brain) ''machine learning'' = Some (ml_node\<lparr> weight := 1 / 20 \<rparr>)"
    by (simp add: weak_interests)
  have st: "memoryType (ml_node\<lparr> weight := 1 / 20 \<rparr>) = ShortTerm"
    and w: "weight (ml_node\<lparr> weight := 1 / 20 \<rparr>) < 1 / 10"
    and tp: "topic (ml_node\<lparr> weight := 1 / 20 \<rparr>) = ''machine learning''"
    by (simp_all add: ml_node_def)
  from consolidate_reports_without_removing [OF run] p st w weak_score tp
  show ?thesis by (fastforce simp: weak_interests)
qed

section \<open>Properties of the dreamer\<close>

lemma filter_count: "length (filter (\<lambda>k. k \<in> set (js_set ys)) (js_set xs)) = card (set xs \<inter> set ys)"
proof -
  have "{k. k \<in> set ys} \<inter> set xs = set xs \<inter> set ys" by blast
  then show ?thesis by (simp add: distinct_length_filter)
qed

lemma filter_positive: "(filter (\<lambda>i. i \<in> set ys) xs = []) = (set xs \<inter> set ys = {})"
  by (auto simp: filter_empty_conv)

lemma calculateDreamSimilarity_formula:
  "calculateDreamSimilarity ex r a b =
     (4 / 10) * keywordJaccard a b + (3 / 10) * sharedConnectionRatio a b
     + (2 / 10) * discoveryCooccurrenceBonus ex a b + (1 / 10) * r"
proof -
  have union: "length (js_set (js_set xs @ js_set ys)) = card (set xs \<union> set ys)"
    for xs ys :: "string list"
    by (simp add: length_js_set)
  have kw: "(if 0 < length (js_set (keywords_of a)) \<and> 0 < length (js_set (keywords_of b))
             then real (length (filter (\<lambda>k. k \<in> set (js_set (keywords_of b))) (js_set (keywords_of a))))
                  / real (length (js_set (js_set (keywords_of a) @ js_set (keywords_of b))))
             else 0) = keywordJaccard a b"
    unfolding filter_count union by (simp add: keywordJaccard_def length_js_set card_gt_0_iff)
  have cn: "real (length (filter (\<lambda>c. c \<in> set (js_set (connections b))) (js_set (connections a))))
            / real (max 1 (min (length (js_set (connections a))) (length (js_set (connections b)))))
            = sharedConnectionRatio a b"
    unfolding filter_count by (simp add: sharedConnectionRatio_def length_js_set)
  have dc: "(case ex of None \<Rightarrow> 0
             | Some ds \<Rightarrow>
                 if 0 < length (filter (\<lambda>i. i \<in> set (topicInDiscoveries ds b))
                                  (topicInDiscoveries ds a))
                 then 3 / 10 else 0) = discoveryCooccurrenceBonus ex a b"
    by (simp add: discoveryCooccurrenceBonus_def filter_positive split: option.splits)
  show ?thesis
    unfolding calculateDreamSimilarity_def Let_def kw cn dc by simp
qed

lemma analyze_pair_eq:
  "analyze_pair cfg ex now rnd chain i j (acc, k) =
     (acc @ filter (\<lambda>c. similarity c \<ge> dreamConnectionThreshold cfg)
              [pair_connection ex now rnd chain ((i, j), k)], Suc k)"
  by (simp add: analyze_pair_def pair_connection_def Let_def)

lemma inner_scan:
  "fold (analyze_pair cfg ex now rnd chain i) js (acc, k) =
     (acc @ filter (\<lambda>c. similarity c \<ge> dreamConnectionThreshold cfg)
              (map (pair_connection ex now rnd chain) (zip (map (Pair i) js) [k ..< k + length js])),
      k + length js)"
proof (induction js arbitrary: acc k)
  case Nil
  show ?case by simp
next
  case (Cons j js)
  have "k < Suc (k + length js)" by simp
  then have "[k ..< Suc (k + length js)] = k # [Suc k ..< Suc (k + length js)]"
    by (rule upt_conv_Cons)
  then show ?case
    by (simp add: analyze_pair_eq Cons.IH del: upt_Suc)
qed

lemma set_index_pairs: "set (index_pairs n) = {(i, j). i + 2 \<le> j \<and> j < n}"
proof -
  have "(i, j) \<in> set (index_pairs n) \<longleftrightarrow> i + 2 \<le> j \<and> j < n" for i j
  proof
    assume "(i, j) \<in> set (index_pairs n)"
    then show "i + 2 \<le> j \<and> j < n" by (auto simp: index_pairs_def)
  next
    assume a: "i + 2 \<le> j \<and> j < n"
    then have "i \<in> set [0 ..< n - 2]" and "(i, j) \<in> set (map (Pair i) [i + 2 ..< n])"
      by auto
    then show "(i, j) \<in> set (index_pairs n)"
      unfolding index_pairs_def set_concat by (intro UN_I [where a = "map (Pair i) [i + 2 ..< n]"]) auto
  qed
  then show ?thesis by auto
qed

lemma zip_upt_append:
  "zip (xs @ ys) [k ..< k + length (xs @ ys)]
     = zip xs [k ..< k + length xs] @ zip ys [k + length xs ..< k + length xs + length ys]"
proof -
  have "[k ..< k + length xs + length ys]
      = [k ..< k + length xs] @ [k + length xs ..< k + length xs + length ys]"
    by (rule upt_add_eq_append) simp
  then have "[k ..< k + length (xs @ ys)]
      = [k ..< k + length xs] @ [k + length xs ..< k + length xs + length ys]"
    by (simp only: length_append add.assoc)
  then show ?thesis by (simp only: zip_append length_upt add_diff_cancel_left')
qed

lemma outer_scan:
  "fold (\<lambda>i st. fold (analyze_pair cfg ex now rnd chain i) [i + 2 ..< n] st) is (acc, k) =
     (acc @ filter (\<lambda>c. similarity c \<ge> dreamConnectionThreshold cfg)
              (map (pair_connection ex now rnd chain)
                 (zip (concat (map (\<lambda>i. map (Pair i) [i + 2 ..< n]) is))
                      [k ..< k + length (concat (map (\<lambda>i. map (Pair i) [i + 2 ..< n]) is))])),
      k + length (concat (map (\<lambda>i. map (Pair i) [i + 2 ..< n]) is)))"
proof (induction "is" arbitrary: acc k)
  case Nil
  show ?case by simp
next
  case (Cons i "is")
  let ?row = "map (Pair i) [i + 2 ..< n]"
  let ?rest = "concat (map (\<lambda>i. map (Pair i) [i + 2 ..< n]) is)"
  let ?keep = "filter (\<lambda>c. similarity c \<ge> dreamConnectionThreshold cfg)"
  let ?mk = "map (pair_connection ex now rnd chain)"
  have len: "length [i + 2 ..< n] = length ?row" by simp
  have "fold (\<lambda>i st. fold (analyze_pair cfg ex now rnd chain i) [i + 2 ..< n] st) (i # is) (acc, k)
      = fold (\<lambda>i st. fold (analyze_pair cfg ex now rnd chain i) [i + 2 ..< n] st) is
          (acc @ ?keep (?mk (zip ?row [k ..< k + length ?row])), k + length ?row)"
    unfolding fold_simps inner_scan len ..
  also have "\<dots> = ((acc @ ?keep (?mk (zip ?row [k ..< k + length ?row])))
                    @ ?keep (?mk (zip ?rest [k + length ?row ..< k + length ?row + length ?rest])),
                   k + length ?row + length ?rest)"
    by (rule Cons.IH)
  also have "\<dots> = (acc @ ?keep (?mk (zip (?row @ ?rest) [k ..< k + length (?row @ ?rest)])),
                   k + length (?row @ ?rest))"
    unfolding zip_upt_append by (simp only: append_assoc filter_append map_append length_append add.assoc)
  finally show ?case by (simp only: list.map concat.simps)
qed

lemma scan: "analyzeChainForConnections cfg ex now rnd k chain =
     (filter (\<lambda>c. similarity c \<ge> dreamConnectionThreshold cfg)
        (map (pair_connection ex now rnd chain)
           (zip (index_pairs (length chain))
                [k ..< k + length (index_pairs (length chain))])),
      k + length (index_pairs (length chain)))"
  unfolding analyzeChainForConnections_def index_pairs_def outer_scan
  by (simp only: append_Nil)

lemma row_inj: "x = y"
  if "x < n - 2" and "map (Pair x) [Suc (Suc x) ..< n] = map (Pair y) [Suc (Suc y) ..< n]"
  for x y n :: nat
proof -
  from that(1) have "(x, Suc (Suc x)) \<in> set (map (Pair x) [Suc (Suc x) ..< n])"
    by auto
  with that(2) have "(x, Suc (Suc x)) \<in> set (map (Pair y) [Suc (Suc y) ..< n])"
    by simp
  then show ?thesis by auto
qed

lemma distinct_index_pairs: "distinct (index_pairs n)"
  unfolding index_pairs_def
proof (rule distinct_concat)
  show "distinct (map (\<lambda>i. map (Pair i) [i + 2..<n]) [0..<n - 2])"
    by (auto simp: distinct_map inj_on_def dest: row_inj)
next
  fix ys assume "ys \<in> set (map (\<lambda>i. map (Pair i) [i + 2..<n]) [0..<n - 2])"
  then show "distinct ys" by (auto simp: distinct_map inj_on_def)
next
  fix ys zs
  assume "ys \<in> set (map (\<lambda>i. map (Pair i) [i + 2..<n]) [0..<n - 2])"
     and "zs \<in> set (map (\<lambda>i. map (Pair i) [i + 2..<n]) [0..<n - 2])" and "ys \<noteq> zs"
  then show "set ys \<inter> set zs = {}" by auto
qed

lemma bonus_values: "discoveryCooccurrenceBonus ex a b \<in> {0, 3 / 10}"
  by (simp add: discoveryCooccurrenceBonus_def split: option.splits)

text \<open>
  Claim C2, amended. For every chain, \<open>analyzeChainForConnections\<close> visits exactly the
  index pairs (i, j) with j \<ge> i + 2, each once, in loop order and each with its own random
  draw, and returns the pairs whose dream similarity reaches the threshold. The similarity
  of a pair is 0.4 * keywordJaccard + 0.3 * sharedConnectionRatio
  + 0.2 * discoveryCooccurrenceBonus + 0.1 * random, where the bonus is 0 or 0.3 and
  sharedConnectionRatio = |connections(a) \<inter> connections(b)| / max(1, min(|connections(a)|,
  |connections(b)|)).
\<close>

theorem analyzeChainForConnections_scan:
  "analyzeChainForConnections cfg ex now rnd k chain =
     (filter (\<lambda>c. similarity c \<ge> dreamConnectionThreshold cfg)
        (map (pair_connection ex now rnd chain)
           (zip (index_pairs (length chain))
                [k ..< k + length (index_pairs (length chain))])),
      k + length (index_pairs (length chain)))
   \<and> set (index_pairs (length chain)) = {(i, j). i + 2 \<le> j \<and> j < length chain}
   \<and> distinct (index_pairs (length chain))
   \<and> (\<forall>r a b. calculateDreamSimilarity ex r a b =
          (4 / 10) * keywordJaccard a b + (3 / 10) * sharedConnectionRatio a b
          + (2 / 10) * discoveryCooccurrenceBonus ex a b + (1 / 10) * r
        \<and> discoveryCooccurrenceBonus ex a b \<in> {0, 3 / 10})"
  by (intro conjI allI scan set_index_pairs distinct_index_pairs
      calculateDreamSimilarity_formula bonus_values)

lemma code_value: "calculateDreamSimilarity None (zero_rnd 0) node_a node_b = 3 / 20"
  by (simp add: calculateDreamSimilarity_def Let_def node_a_def node_b_def keywords_of_def
      js_set_def zero_rnd_def)

lemma spec_value: "spec_dream_similarity None (zero_rnd 0) node_a node_b = 3 / 10"
  by (simp add: spec_dream_similarity_def keywordJaccard_def spec_sharedConnectionRatio_def
      discoveryCooccurrenceBonus_def node_a_def node_b_def keywords_of_def zero_rnd_def)

lemma index_pairs_3: "index_pairs (Suc (Suc (Suc 0))) = [(0, 2)]"
  by (simp add: index_pairs_def numeral_2_eq_2)

text \<open>
  The claim as worded divides by min(|connections(a)|, |connections(b)|, 1). For two nodes
  with two connections each, one of them shared, at the ends of a chain of three, the code
  records similarity 0.3 * 1/2 = 3/20, the worded formula gives 0.3 * 1 = 3/10.
\<close>

theorem dream_similarity_counterexample:
  "fst (analyzeChainForConnections default_dream_config None 0 zero_rnd 0 [node_a, dl_node, node_b])
     = [\<lparr> dc_from = ''alpha'', dc_to = ''beta'', similarity = 3 / 20, distance = 2,
           discoveredAt = 0 \<rparr>]
   \<and> spec_dream_similarity None (zero_rnd 0) node_a node_b = 3 / 10"
proof -
  have "pair_connection None 0 zero_rnd [node_a, dl_node, node_b] ((0, 2), 0)
      = \<lparr> dc_from = ''alpha'', dc_to = ''beta'', similarity = 3 / 20, distance = 2,
          discoveredAt = 0 \<rparr>"
    by (simp add: pair_connection_def code_value) (simp add: node_a_def node_b_def)
  then show ?thesis
    by (simp add: scan index_pairs_3 spec_value default_dream_config_def)
qed

theorem analyzeChainForConnections_scan_witness:
  "calculateDreamSimilarity None (zero_rnd 0) node_a node_b = (3 / 10) * (1 / 2)
   \<and> sharedConnectionRatio node_a node_b = 1 / 2
   \<and> set (index_pairs (length [node_a, dl_node, node_b])) = {(0, 2)}"
proof -
  have r: "sharedConnectionRatio node_a node_b = 1 / 2"
    by (simp add: sharedConnectionRatio_def node_a_def node_b_def)
  have k: "keywordJaccard node_a node_b = 0"
    by (simp add: keywordJaccard_def node_a_def node_b_def keywords_of_def)
  have d: "discoveryCooccurrenceBonus None node_a node_b = 0"
    by (simp add: discoveryCooccurrenceBonus_def)
  from analyzeChainForConnections_scan [of default_dream_config None 0 zero_rnd 0
      "[node_a, dl_node, node_b]"]
  have "calculateDreamSimilarity None (zero_rnd 0) node_a node_b =
          (4 / 10) * keywordJaccard node_a node_b + (3 / 10) * sharedConnectionRatio node_a node_b
          + (2 / 10) * discoveryCooccurrenceBonus None node_a node_b + (1 / 10) * zero_rnd 0"
    by blast
  then show ?thesis
    by (simp add: r k d zero_rnd_def index_pairs_3)
qed

text \<open>
  Claim C4, amended. \<open>dream()\<close> returns the structured result ``Already dreaming or brain
  not initialized'' whenever a session is active or there is no graph, whatever the number
  of interests; otherwise, with fewer than 3 interests, it returns the structured result
  ``Need at least 3 interests to dream''. Neither case raises an exception, and both leave
  the graph, the dreamer (its log, its discovered connections and its flag) and the random
  source as they were.
\<close>

theorem dream_rejections:
  "(isDreaming d \<or> wb = None \<longrightarrow>
      dream now rnd k ex d wb
        = Inr (Rejected ''Already dreaming or brain not initialized'', d, wb, k))
   \<and> (\<not> isDreaming d \<and> wb = Some b \<and> length (interests b) < 3 \<longrightarrow>
      dream now rnd k ex d wb
        = Inr (Rejected ''Need at least 3 interests to dream'', d, wb, k))"
proof -
  have "d\<lparr> isDreaming := False \<rparr> = d" if "\<not> isDreaming d"
    using that by (cases d) simp
  then show ?thesis
    by (auto simp: dream_def Let_def split: option.splits)
qed

theorem dream_rejections_witness:
  "isDreaming busy_dreamer
   \<and> dream 0 half_rnd 0 None busy_dreamer (Some demo_brain)
       = Inr (Rejected ''Already dreaming or brain not initialized'', busy_dreamer, Some demo_brain, 0)
   \<and> \<not> isDreaming new_dreamer \<and> length (interests demo_brain) < 3
   \<and> dream 0 half_rnd 0 None new_dreamer (Some demo_brain)
       = Inr (Rejected ''Need at least 3 interests to dream'', new_dreamer, Some demo_brain, 0)"
proof -
  have a: "isDreaming busy_dreamer" by (simp add: busy_dreamer_def)
  have b: "\<not> isDreaming new_dreamer" by (simp add: new_dreamer_def)
  have c: "length (interests demo_brain) < 3" by (simp add: demo_interests)
  from dream_rejections [where d = busy_dreamer and wb = "Some demo_brain" and now = 0
                           and rnd = half_rnd and k = 0 and ex = None and b = demo_brain]
       dream_rejections [where d = new_dreamer and wb = "Some demo_brain" and now = 0
                           and rnd = half_rnd and k = 0 and ex = None and b = demo_brain]
       a b c
  show ?thesis by simp
qed

text \<open>
  With a session active and fewer than 3 interests, the result is not the ``not enough
  interests'' one.
\<close>

theorem dream_not_enough_counterexample:
  "length (interests new_brain) < 3
   \<and> dream 0 half_rnd 0 None busy_dreamer (Some new_brain)
       = Inr (Rejected ''Already dreaming or brain not initialized'', busy_dreamer, Some new_brain, 0)
   \<and> ''Already dreaming or brain not initialized'' \<noteq> ''Need at least 3 interests to dream''"
  by (simp add: dream_def busy_dreamer_def new_brain_def)

section \<open>Properties of the strategy evolution\<close>

lemma unit_source_in_unit: "unit_source rnd \<Longrightarrow> in_unit (rnd n)"
  by (simp add: unit_source_def in_unit_def less_imp_le)

lemma genes_ok_set_gene: "genes_ok g \<Longrightarrow> in_unit v \<Longrightarrow> genes_ok (set_gene key v g)"
  by (cases key) (simp_all add: genes_ok_def)

lemma genes_ok_get_gene: "genes_ok g \<Longrightarrow> in_unit (get_gene key g)"
  by (cases key) (simp_all add: genes_ok_def in_unit_def)

lemma genes_ok_set_api: "genes_ok g \<Longrightarrow> in_unit v \<Longrightarrow> genes_ok (set_api api v g)"
  by (cases api) (simp_all add: genes_ok_def)

lemma genes_ok_get_api: "genes_ok g \<Longrightarrow> in_unit (get_api api g)"
  by (cases api) (simp_all add: genes_ok_def)

lemma in_unit_clamp: "in_unit (max 0 (min 1 x))"
  by (simp add: in_unit_def)

lemma fold_keeps:
  assumes "\<And>x st. P (fst st) \<Longrightarrow> P (fst (f x st))" and "P (fst st)"
  shows "P (fst (fold f xs st))"
  using assms(2) by (induction xs arbitrary: st) (simp_all add: assms(1))

lemma genes_ok_crossover_gene:
  assumes "genes_ok (genes p1)" and "genes_ok (genes p2)" and "genes_ok (fst st)"
  shows "genes_ok (fst (crossover_gene rnd p1 p2 key st))"
proof (cases "key = ApiPreferences")
  case True
  have "genes_ok (fst (fold (\<lambda>api (g, k).
                (set_api api (if rnd k < 1 / 2 then get_api api (genes p1)
                              else get_api api (genes p2)) g, k + 1)) api_keys st))"
    by (rule fold_keeps [where P = genes_ok])
       (auto simp: split_def assms genes_ok_set_api genes_ok_get_api)
  with True show ?thesis by (simp add: crossover_gene_def)
next
  case False
  with assms show ?thesis
    by (cases st) (simp add: crossover_gene_def genes_ok_set_gene genes_ok_get_gene)
qed

lemma genes_ok_createRandomStrategy:
  "unit_source rnd \<Longrightarrow> genes_ok (genes (fst (createRandomStrategy now gen rnd k)))"
  by (simp add: createRandomStrategy_def genes_ok_def unit_source_in_unit)

lemma genes_ok_crossover:
  assumes "unit_source rnd" and "genes_ok (genes p1)" and "genes_ok (genes p2)"
  shows "genes_ok (genes (fst (crossover now gen rnd k p1 p2)))"
proof -
  have "genes_ok (fst (fold (crossover_gene rnd p1 p2) gene_keys
           (genes (fst (createRandomStrategy now gen rnd k)), snd (createRandomStrategy now gen rnd k))))"
    by (rule fold_keeps [where P = genes_ok])
       (simp_all add: genes_ok_crossover_gene assms genes_ok_createRandomStrategy)
  then show ?thesis by (simp add: crossover_def Let_def)
qed

lemma genes_ok_mutate_gene:
  assumes "unit_source rnd" and "genes_ok (fst st)"
  shows "genes_ok (fst (mutate_gene cfg rnd key st))"
proof -
  obtain g k where st: "st = (g, k)" by (cases st)
  have api: "genes_ok (fst (fold (\<lambda>api (g1, k1).
                     if rnd k1 < mutationRate cfg then (set_api api (rnd (k1 + 1)) g1, k1 + 2)
                     else (g1, k1 + 1)) api_keys (g, k + 1)))"
    using assms(2)
    by (intro fold_keeps [where P = genes_ok])
       (auto simp: st split_def genes_ok_set_api unit_source_in_unit [OF assms(1)])
  show ?thesis
    using assms(2) api
    by (simp add: st mutate_gene_def Let_def genes_ok_set_gene in_unit_clamp)
qed

lemma genes_ok_mutate:
  assumes "unit_source rnd" and "genes_ok (genes s)"
  shows "genes_ok (genes (fst (mutate cfg rnd k s)))"
proof -
  have "genes_ok (fst (fold (mutate_gene cfg rnd) gene_keys (genes s, k)))"
    by (rule fold_keeps [where P = genes_ok]) (simp_all add: genes_ok_mutate_gene assms)
  then show ?thesis by (simp add: mutate_def Let_def)
qed

lemma roulette_member: "roulette r adj = Some s \<Longrightarrow> s \<in> fst ` set adj"
  by (induction r adj rule: roulette.induct) (auto simp: Let_def split: if_splits)

lemma selectParent_member:
  assumes "pop \<noteq> []"
  shows "\<exists>p. selectParent rnd k pop = (Some p, Suc k) \<and> p \<in> set pop"
proof -
  from assms obtain q qs where pop: "pop = q # qs" by (cases pop) auto
  let ?m = "fold (\<lambda>s m. min (fitness s) m) qs (fitness q)"
  let ?adj = "map (\<lambda>s. (s, fitness s - ?m + 1)) pop"
  let ?r = "rnd k * fold (\<lambda>(s, f) acc. acc + f) ?adj 0"
  show ?thesis
  proof (cases "roulette ?r ?adj")
    case None
    then show ?thesis by (simp add: selectParent_def pop Let_def)
  next
    case (Some s)
    from roulette_member [OF Some] have "s \<in> set pop" by auto
    with Some show ?thesis by (simp add: selectParent_def pop Let_def)
  qed
qed

lemma breed_result:
  assumes "pop \<noteq> []"
  shows "\<exists>child k'. breed now rnd cfg gen pop k = Inr (child, k')
           \<and> (unit_source rnd \<and> population_ok pop \<longrightarrow> genes_ok (genes child))"
proof -
  from selectParent_member [OF assms] obtain p1
    where p1: "selectParent rnd k pop = (Some p1, Suc k)" "p1 \<in> set pop" by blast
  from selectParent_member [OF assms] obtain p2
    where p2: "selectParent rnd (Suc k) pop = (Some p2, Suc (Suc k))" "p2 \<in> set pop" by blast
  have parents: "genes_ok (genes p1)" "genes_ok (genes p2)" if "population_ok pop"
    using that p1(2) p2(2) by (auto simp: population_ok_def)
  show ?thesis
  proof (cases "rnd (Suc (Suc k)) < crossoverRate cfg")
    case True
    let ?c = "crossover now gen rnd (Suc (Suc (Suc k))) p1 p2"
    let ?m = "mutate cfg rnd (snd ?c) (fst ?c)"
    have "genes_ok (genes (fst ?m))" if "unit_source rnd" "population_ok pop"
      using that parents by (intro genes_ok_mutate genes_ok_crossover)
    then show ?thesis
      using True by (simp add: breed_def p1(1) p2(1) Let_def)
  next
    case False
    let ?m = "mutate cfg rnd (Suc (Suc (Suc k))) p1"
    have "genes_ok (genes (fst ?m))" if "unit_source rnd" "population_ok pop"
      using that parents by (intro genes_ok_mutate)
    then show ?thesis
      using False by (simp add: breed_def p1(1) p2(1) Let_def)
  qed
qed

declare fill_offspring.simps [simp del]

lemma fill_stop:
  "\<not> length newPopulation < populationSize cfg \<Longrightarrow>
     fill_offspring now rnd cfg gen pop (newPopulation, k) = Inr (newPopulation, k)"
  by (subst fill_offspring.simps) simp

lemma fill_step:
  "length newPopulation < populationSize cfg \<Longrightarrow> breed now rnd cfg gen pop k = Inr (child, k1) \<Longrightarrow>
     fill_offspring now rnd cfg gen pop (newPopulation, k)
       = fill_offspring now rnd cfg gen pop (newPopulation @ [child], k1)"
  by (subst fill_offspring.simps) simp

lemma population_ok_snoc:
  "population_ok (xs @ [x]) \<longleftrightarrow> population_ok xs \<and> genes_ok (genes x)"
  by (auto simp: population_ok_def)

lemma fill_offspring_result:
  assumes "pop \<noteq> []"
  shows "\<exists>np k'. fill_offspring now rnd cfg gen pop (newPop, k) = Inr (np, k')
           \<and> length np = max (populationSize cfg) (length newPop)
           \<and> (unit_source rnd \<and> population_ok pop \<and> population_ok newPop \<longrightarrow> population_ok np)"
proof (induction "populationSize cfg - length newPop" arbitrary: newPop k)
  case 0
  then have "\<not> length newPop < populationSize cfg" by simp
  then show ?case by (simp add: fill_stop)
next
  case (Suc d)
  then have less: "length newPop < populationSize cfg" by simp
  from breed_result [OF assms, of now rnd cfg gen k] obtain child k1
    where b: "breed now rnd cfg gen pop k = Inr (child, k1)"
      and ok: "unit_source rnd \<and> population_ok pop \<longrightarrow> genes_ok (genes child)"
    by blast
  from Suc(2) have "d = populationSize cfg - length (newPop @ [child])" by simp
  from Suc(1) [OF this, of k1] obtain np k'
    where r: "fill_offspring now rnd cfg gen pop (newPop @ [child], k1) = Inr (np, k')"
      "length np = max (populationSize cfg) (length (newPop @ [child]))"
      "unit_source rnd \<and> population_ok pop \<and> population_ok (newPop @ [child])
         \<longrightarrow> population_ok np"
    by blast
  have 1: "fill_offspring now rnd cfg gen pop (newPop, k) = Inr (np, k')"
    by (simp only: fill_step [OF less b] r(1))
  have 2: "length np = max (populationSize cfg) (length newPop)"
    using less r(2) by simp
  have 3: "unit_source rnd \<and> population_ok pop \<and> population_ok newPop \<longrightarrow> population_ok np"
    using ok r(3) by (simp add: population_ok_snoc)
  from 1 2 3 show ?case by (intro exI conjI)
qed

lemma evolve_run:
  assumes "2 \<le> length (population g)"
  shows "\<exists>ret g' k'. evolve now rnd k g = Inr (ret, g', k')
           \<and> length (population g')
               = max (populationSize (genetics_cfg g))
                     (min (elitismCount (genetics_cfg g)) (length (population g)))
           \<and> generation g' = generation g + 1
           \<and> (unit_source rnd \<and> population_ok (population g) \<longrightarrow> population_ok (population g'))"
proof -
  let ?cfg = "genetics_cfg g"
  let ?sorted = "sort_key (\<lambda>s. - fitness s) (population g)"
  let ?elite = "map (\<lambda>s. s\<lparr> strategy_generation := generation g + 1 \<rparr>)
                    (take (elitismCount ?cfg) ?sorted)"
  from assms have ne: "?sorted \<noteq> []" by (auto simp: length_0_conv [symmetric] simp del: length_0_conv)
  have ok_sorted: "population_ok ?sorted" if "population_ok (population g)"
    using that by (simp add: population_ok_def)
  have ok_elite: "population_ok ?elite" if "population_ok (population g)"
    using that by (auto simp: population_ok_def dest: in_set_takeD)
  from fill_offspring_result [OF ne, of now rnd ?cfg "generation g" ?elite k]
  obtain np k' where r: "fill_offspring now rnd ?cfg (generation g) ?sorted (?elite, k) = Inr (np, k')"
    "length np = max (populationSize ?cfg) (length ?elite)"
    "unit_source rnd \<and> population_ok ?sorted \<and> population_ok ?elite \<longrightarrow> population_ok np"
    by blast
  have len: "length ?elite = min (elitismCount ?cfg) (length (population g))"
    by (simp add: min.commute)
  from assms have nl: "\<not> length (population g) < 2" by simp
  have "\<exists>ret g'. evolve now rnd k g = Inr (ret, g', k') \<and> population g' = np
          \<and> generation g' = generation g + 1"
    unfolding evolve_def Let_def r(1) using nl by simp
  then obtain ret g' where e: "evolve now rnd k g = Inr (ret, g', k')" "population g' = np"
    "generation g' = generation g + 1" by blast
  have 2: "length (population g')
      = max (populationSize ?cfg) (min (elitismCount ?cfg) (length (population g)))"
    by (simp only: e(2) r(2) len)
  have 3: "unit_source rnd \<and> population_ok (population g) \<longrightarrow> population_ok (population g')"
    using r(3) ok_sorted ok_elite by (simp add: e(2))
  from e(1) 2 e(3) 3 show ?thesis by (intro exI conjI)
qed

subsection \<open>The states the program builds\<close>

lemma init_loop_result:
  "length (fst (init_loop now gen rnd n (pop, k))) = length pop + n
   \<and> (unit_source rnd \<and> population_ok pop \<longrightarrow> population_ok (fst (init_loop now gen rnd n (pop, k))))"
proof (induction n arbitrary: pop k)
  case 0
  show ?case by simp
next
  case (Suc n)
  let ?c = "createRandomStrategy now gen rnd k"
  from Suc.IH [of "pop @ [fst ?c]" "snd ?c"] genes_ok_createRandomStrategy [of rnd now gen k]
  show ?case by (simp add: Let_def population_ok_snoc)
qed

lemma initializePopulation_inv:
  assumes "unit_source rnd" and "genetics_cfg g = default_genetics_config"
  shows "genetics_inv (fst (initializePopulation now rnd k g))"
  using assms init_loop_result [of now "generation g" rnd "populationSize (genetics_cfg g)" "[]" k]
  by (simp add: initializePopulation_def Let_def genetics_inv_def population_ok_def)

lemma evolve_cfg:
  "evolve now rnd k g = Inr (ret, g', k') \<Longrightarrow> genetics_cfg g' = genetics_cfg g"
  by (auto simp: evolve_def Let_def split: if_splits sum.splits)

lemma recordOutcome_inv: "genetics_inv g \<Longrightarrow> genetics_inv (recordOutcome now i out g)"
proof -
  assume inv: "genetics_inv g"
  show ?thesis
  proof (cases "i < length (population g)")
    case False
    with inv show ?thesis by (simp add: recordOutcome_def)
  next
    case True
    obtain s' where r: "recordOutcome now i out g = g\<lparr> population := (population g)[i := s'] \<rparr>"
      and s': "genes s' = genes (population g ! i)"
      using True by (simp add: recordOutcome_def Let_def)
    from inv True have gi: "genes_ok (genes s')"
      unfolding s' by (simp add: genetics_inv_def population_ok_def)
    have "population_ok ((population g)[i := s'])"
      unfolding population_ok_def
    proof
      fix s assume "s \<in> set ((population g)[i := s'])"
      with set_update_subset_insert [of "population g" i s']
      have "s = s' \<or> s \<in> set (population g)" by auto
      with gi inv show "genes_ok (genes s)" by (auto simp: genetics_inv_def population_ok_def)
    qed
    with inv show ?thesis unfolding r by (simp add: genetics_inv_def)
  qed
qed

lemma evolve_inv:
  assumes "genetics_inv g" and "unit_source rnd" and "evolve now rnd k g = Inr (ret, g', k')"
  shows "genetics_inv g'"
proof (cases "length (population g) < 2")
  case True
  with assms(3) have "g' = g" by (simp add: evolve_def)
  with assms(1) show ?thesis by simp
next
  case False
  then have "2 \<le> length (population g)" by simp
  from evolve_run [OF this, of now rnd k] assms(3) obtain
    l: "length (population g')
         = max (populationSize (genetics_cfg g))
               (min (elitismCount (genetics_cfg g)) (length (population g)))"
    and ok: "unit_source rnd \<and> population_ok (population g) \<longrightarrow> population_ok (population g')"
    by auto
  from assms(1,2) l ok evolve_cfg [OF assms(3)] show ?thesis
    by (simp add: genetics_inv_def default_genetics_config_def)
qed

lemma selectStrategy_inv:
  assumes "genetics_inv g" and "unit_source rnd" and "selectStrategy now rnd k g = (sel, g', k')"
  shows "genetics_inv g'"
proof -
  from assms(3) have "g' = fst (if length (population g) = 0 then initializePopulation now rnd k g
                                 else (g, k))"
    by (auto simp: selectStrategy_def Let_def)
  with assms(1,2) initializePopulation_inv [OF assms(2), of g now k] show ?thesis
    by (auto simp: genetics_inv_def)
qed

lemma reset_inv:
  assumes "genetics_inv g" and "unit_source rnd"
  shows "genetics_inv (fst (reset now rnd k g))"
  unfolding reset_def
  by (rule initializePopulation_inv [OF assms(2)]) (use assms(1) in \<open>simp add: genetics_inv_def\<close>)

lemma GeneticEvolution_inv:
  assumes "unit_source rnd" and "store = None \<or> (\<exists>g. genetics_inv g \<and> store = Some (savePopulation g))"
  shows "genetics_inv (fst (GeneticEvolution now rnd k store))"
proof -
  let ?g = "loadPopulation store new_genetics"
  have cfg: "genetics_cfg ?g = default_genetics_config"
    by (simp add: loadPopulation_def new_genetics_def split: option.splits)
  show ?thesis
  proof (cases "length (population ?g) = 0")
    case True
    with initializePopulation_inv [OF assms(1) cfg, of now k] show ?thesis
      by (simp add: GeneticEvolution_def Let_def)
  next
    case False
    with assms(2) obtain g where g: "genetics_inv g" "store = Some (savePopulation g)"
      by (auto simp: loadPopulation_def new_genetics_def)
    then have "genetics_inv ?g"
      by (simp add: genetics_inv_def loadPopulation_def savePopulation_def new_genetics_def)
    with False show ?thesis by (simp add: GeneticEvolution_def Let_def)
  qed
qed

lemma reachable_genetics_inv: "genetics_reachable g \<Longrightarrow> genetics_inv g"
proof (induction rule: genetics_reachable.induct)
  case (gr_fresh rnd now k)
  then show ?case by (simp add: GeneticEvolution_inv)
next
  case (gr_restart g rnd now k)
  then show ?case by (blast intro: GeneticEvolution_inv)
next
  case (gr_select g rnd now k sel g' k')
  then show ?case by (blast intro: selectStrategy_inv)
next
  case (gr_record g now i out)
  then show ?case by (simp add: recordOutcome_inv)
next
  case (gr_evolve g rnd now k ret g' k')
  then show ?case by (blast intro: evolve_inv)
next
  case (gr_reset g rnd now k)
  then show ?case by (simp add: reset_inv)
qed

text \<open>
  Claim C1. On a population of fewer than 2 genomes \<open>evolve()\<close> returns nothing and leaves
  the whole state, population and generation counter included, unchanged. In every state
  that the program builds, with the draws of \<open>Math.random()\<close> in [0, 1), a call of \<open>evolve()\<close>
  on a population of at least 2 genomes raises no exception and leaves a population of the
  size before, in which every gene (each scalar gene and each \<open>apiPreferences\<close> entry) lies
  in [0, 1]; the generation counter is incremented by one.
\<close>

theorem evolve_invariants:
  "(length (population g) < 2 \<longrightarrow> evolve now rnd k g = Inr (None, g, k))
   \<and> (genetics_reachable g \<and> unit_source rnd \<and> 2 \<le> length (population g) \<longrightarrow>
        (\<exists>ret g' k'. evolve now rnd k g = Inr (ret, g', k')
           \<and> length (population g') = length (population g)
           \<and> population_ok (population g')
           \<and> generation g' = generation g + 1))"
proof (intro conjI impI)
  assume "length (population g) < 2"
  then show "evolve now rnd k g = Inr (None, g, k)" by (simp add: evolve_def)
next
  assume a: "genetics_reachable g \<and> unit_source rnd \<and> 2 \<le> length (population g)"
  then have inv: "genetics_inv g" by (simp add: reachable_genetics_inv)
  from a evolve_run [of g now rnd k] obtain ret g' k'
    where e: "evolve now rnd k g = Inr (ret, g', k')"
      "length (population g')
         = max (populationSize (genetics_cfg g))
               (min (elitismCount (genetics_cfg g)) (length (population g)))"
      "generation g' = generation g + 1"
      "unit_source rnd \<and> population_ok (population g) \<longrightarrow> population_ok (population g')"
    by blast
  from e(2) inv have 1: "length (population g') = length (population g)"
    by (simp add: genetics_inv_def default_genetics_config_def)
  from e(4) a inv have 2: "population_ok (population g')" by (simp add: genetics_inv_def)
  from e(1) 1 2 e(3)
  show "\<exists>ret g' k'. evolve now rnd k g = Inr (ret, g', k')
           \<and> length (population g') = length (population g)
           \<and> population_ok (population g')
           \<and> generation g' = generation g + 1"
    by (intro exI conjI)
qed

theorem evolve_invariants_witness:
  "genetics_reachable fresh_genetics \<and> unit_source half_rnd
   \<and> length (population fresh_genetics) = 10
   \<and> (\<exists>ret g' k'. evolve 0 half_rnd 0 fresh_genetics = Inr (ret, g', k')
          \<and> length (population g') = 10 \<and> population_ok (population g')
          \<and> generation g' = 1)
   \<and> length (population new_genetics) = 0
   \<and> evolve 0 half_rnd 0 new_genetics = Inr (None, new_genetics, 0)"
proof -
  have src: "unit_source half_rnd"
    by (simp add: unit_source_def half_rnd_def)
  have re: "genetics_reachable fresh_genetics"
    unfolding fresh_genetics_def using src by (rule gr_fresh)
  have len: "length (population fresh_genetics) = 10"
    using reachable_genetics_inv [OF re]
    by (simp add: genetics_inv_def default_genetics_config_def)
  have gen: "generation fresh_genetics = 0"
    by (simp add: fresh_genetics_def GeneticEvolution_def loadPopulation_def
        initializePopulation_def new_genetics_def Let_def)
  from evolve_invariants [of fresh_genetics 0 half_rnd 0] re src len gen
  have big: "\<exists>ret g' k'. evolve 0 half_rnd 0 fresh_genetics = Inr (ret, g', k')
          \<and> length (population g') = 10 \<and> population_ok (population g')
          \<and> generation g' = 1"
    by simp
  have none: "length (population new_genetics) = 0"
    by (simp add: new_genetics_def)
  from evolve_invariants [of new_genetics 0 half_rnd 0] none
  have small: "evolve 0 half_rnd 0 new_genetics = Inr (None, new_genetics, 0)"
    by simp
  from re src len big none small show ?thesis by (intro conjI)
qed

section \<open>Core status across the operations\<close>

lemma same_status_refl [simp]: "same_status n n"
  by (simp add: same_status_def)

lemma same_status_trans: "same_status x y \<Longrightarrow> same_status y z \<Longrightarrow> same_status x z"
  by (simp add: same_status_def)

lemma only_connections_status: "only_connections n n' \<Longrightarrow> same_status n n'"
  by (cases n, cases n') (simp add: only_connections_def same_status_def)

lemma keeps_mono: "keeps R b b' \<Longrightarrow> (\<And>x y. R x y \<Longrightarrow> S x y) \<Longrightarrow> keeps S b b'"
  unfolding keeps_def by blast

lemma funpow_status:
  "(\<And>x. same_status x (f x)) \<Longrightarrow> same_status n ((f ^^ j) n)"
  by (induction j) (auto intro: same_status_trans)

lemma keeps_entry:
  assumes "\<And>x. same_status x (f x)"
  shows "keeps same_status b (b\<lparr> interests := AList.map_entry k f (interests b) \<rparr>)"
  using assms by (auto simp: keeps_def map_of_map_entry_eq)

lemma keeps_status_trans:
  "keeps same_status b b' \<Longrightarrow> keeps same_status b' b'' \<Longrightarrow> keeps same_status b b''"
  by (rule keeps_trans [where R = same_status and S = same_status]) (auto intro: same_status_trans)

lemma keeps_reinforceInterest: "keeps same_status b (reinforceInterest now t s b)"
proof (cases "map_of (interests b) t")
  case None
  then show ?thesis by (simp add: reinforceInterest_def keeps_def)
next
  case (Some node)
  have b: "same_status x (bumped (config b) now s x)" for x
    by (simp add: bumped_def same_status_def)
  have r: "same_status node (reinforced (config b) now s node)"
    by (simp add: reinforced_def same_status_def)
  show ?thesis
  proof (rule keepsI)
    fix k n'
    assume "map_of (interests (reinforceInterest now t s b)) k = Some n'"
    then show "\<exists>n. map_of (interests b) k = Some n \<and> same_status n n'"
      using Some r funpow_status [of "bumped (config b) now s", OF b]
      by (auto simp: map_of_reinforceInterest [OF Some] split: if_splits
               intro: same_status_trans)
  qed
qed

lemma keeps_connect_step: "keeps same_status b (connect_step now t other b)"
  by (auto simp: connect_step_def Let_def keeps_def map_of_map_entry_eq same_status_def
      split: if_splits)

lemma keeps_fold_connect: "keeps same_status b (fold (connect_step now t) ks b)"
proof (induction ks arbitrary: b)
  case Nil
  show ?case by (simp add: keeps_refl)
next
  case (Cons k ks)
  show ?case using keeps_status_trans [OF keeps_connect_step Cons.IH] by simp
qed

lemma keeps_createDreamConnection:
  "keeps same_status b (snd (createDreamConnection now a c sim (d, b)))"
  by (auto simp: createDreamConnection_def Let_def keeps_def map_of_map_entry_eq same_status_def
      split: if_splits option.splits)

lemma keeps_strengthenConnection: "keeps same_status b (strengthenConnection a c b)"
  by (auto simp: strengthenConnection_def Let_def keeps_def map_of_map_entry_eq same_status_def
      split: if_splits option.splits)

lemma keys_fold_entry:
  "map fst (fold (\<lambda>c g. case map_of g c of None \<Rightarrow> g | Some _ \<Rightarrow> AList.map_entry c f g) cs g) = map fst g"
  by (induction cs arbitrary: g) (simp_all add: guarded_entry)

lemma keys_reinforceInterest [simp]:
  "map fst (interests (reinforceInterest now t s b)) = map fst (interests b)"
  by (simp add: reinforceInterest_def Let_def keys_fold_entry split: option.splits)

lemma keys_connect_step [simp]:
  "map fst (interests (connect_step now t other b)) = map fst (interests b)"
  by (simp add: connect_step_def Let_def)

lemma keys_fold_connect [simp]:
  "map fst (interests (fold (connect_step now t) ks b)) = map fst (interests b)"
  by (induction ks arbitrary: b) simp_all

lemma keys_updateCoreStatus [simp]:
  "map fst (interests (updateCoreStatus b)) = map fst (interests b)"
  by (simp add: updateCoreStatus_def split_def)

lemma keys_createDreamConnection [simp]:
  "map fst (interests (snd (createDreamConnection now a c sim (d, b)))) = map fst (interests b)"
  by (simp add: createDreamConnection_def Let_def split: option.splits)

lemma keys_strengthenConnection [simp]:
  "map fst (interests (strengthenConnection a c b)) = map fst (interests b)"
  by (simp add: strengthenConnection_def Let_def split: option.splits)

lemma keys_fold_strip:
  "map fst (fold (\<lambda>c g. AList.map_entry c f g) cs g) = map fst g"
  by (induction cs arbitrary: g) simp_all

lemma distinct_removeInterest:
  "distinct (map fst (interests b)) \<Longrightarrow> distinct (map fst (interests (removeInterest t b)))"
  by (simp add: removeInterest_def Let_def AList.distinct_delete keys_fold_strip split: option.splits)

lemma keys_removeInterest:
  "map fst (interests (removeInterest t b)) =
     (case map_of (interests b) t of None \<Rightarrow> map fst (interests b)
      | Some _ \<Rightarrow> removeAll t (map fst (interests b)))"
  by (simp add: removeInterest_def Let_def AList.delete_keys keys_fold_strip split: option.splits)

lemma keys_removeInterest_subset:
  "set (map fst (interests (removeInterest t b))) \<subseteq> set (map fst (interests b))"
  unfolding keys_removeInterest by (auto split: option.splits)

lemma distinct_fold_removeInterest:
  "distinct (map fst (interests b)) \<Longrightarrow> distinct (map fst (interests (fold removeInterest ts b)))"
  by (induction ts arbitrary: b) (simp_all add: distinct_removeInterest)

lemma dream_kept_refl [simp]: "dream_kept b b"
  by (simp add: dream_kept_def keeps_refl)

lemma dream_kept_trans: "dream_kept b b' \<Longrightarrow> dream_kept b' b'' \<Longrightarrow> dream_kept b b''"
  by (auto simp: dream_kept_def intro: keeps_status_trans)

lemma dream_kept_apply_connection:
  "dream_kept b (snd (snd (apply_connection now conn (session, d, b))))"
  by (simp add: apply_connection_def Let_def dream_kept_def keeps_createDreamConnection
      keeps_strengthenConnection)

lemma dream_kept_fold_apply:
  "dream_kept b (snd (snd (fold (apply_connection now) conns (session, d, b))))"
proof (induction conns arbitrary: session d b)
  case Nil
  show ?case by simp
next
  case (Cons c cs)
  obtain s1 d1 b1 where st: "apply_connection now c (session, d, b) = (s1, d1, b1)"
    by (cases "apply_connection now c (session, d, b)") auto
  have "dream_kept b b1" using dream_kept_apply_connection [of b now c session d] by (simp add: st)
  from dream_kept_trans [OF this Cons.IH [of b1 s1 d1]] show ?case by (simp add: st)
qed

lemma dream_kept_loop:
  "dream_loop now rnd ex n (session, d, b, k) = Inr (session', d', b', k') \<Longrightarrow> dream_kept b b'"
proof (induction n arbitrary: session d b k)
  case 0
  then show ?case by simp
next
  case (Suc n)
  from Suc.prems obtain chain k1 where g: "generateMemoryChain (dream_cfg d) rnd k b = Some (chain, k1)"
    by (auto split: option.splits)
  let ?found = "analyzeChainForConnections (dream_cfg d) ex now rnd k1 chain"
  let ?st = "fold (apply_connection now) (fst ?found) (session\<lparr> chains := chains session @ [chain] \<rparr>, d, b)"
  from Suc.prems g have "dream_loop now rnd ex n (fst ?st, fst (snd ?st), snd (snd ?st), snd ?found)
      = Inr (session', d', b', k')"
    by (simp add: Let_def)
  from Suc.IH [OF this] dream_kept_fold_apply [of b now "fst ?found" _ d]
  show ?case by (blast intro: dream_kept_trans)
qed

lemma dream_kept_dream:
  "dream now rnd k ex d (Some b) = Inr (res, d', Some b', k') \<Longrightarrow> dream_kept b b'"
  by (auto simp: dream_def Let_def split: if_splits sum.splits dest: dream_kept_loop)

lemma core_inv_update_core: "core_inv n \<Longrightarrow> core_inv (update_core cfg n)"
  by (auto simp: core_inv_def update_core_def Let_def)

lemma no_regress_update_core: "no_regress n (update_core cfg n)"
  by (auto simp: no_regress_def update_core_def Let_def)

lemma core_inv_same_status: "same_status n n' \<Longrightarrow> core_inv n \<Longrightarrow> core_inv n'"
  by (simp add: same_status_def core_inv_def)

lemma no_regress_same_status: "same_status n n' \<Longrightarrow> no_regress n n'"
  by (simp add: same_status_def no_regress_def)

lemma core_inv_settle:
  assumes "settle cfg n n'" and "core_inv n"
  shows "core_inv n'"
proof -
  from assms(1) obtain m where m: "same_status n m" "n' = update_core cfg m"
    unfolding settle_def by blast
  from m(1) assms(2) have "core_inv m" by (rule core_inv_same_status)
  then show ?thesis unfolding m(2) by (rule core_inv_update_core)
qed

lemma no_regress_settle:
  assumes "settle cfg n n'"
  shows "no_regress n n'"
proof -
  from assms obtain m where m: "same_status n m" "n' = update_core cfg m"
    unfolding settle_def by blast
  have "no_regress m n'" unfolding m(2) by (rule no_regress_update_core)
  with m(1) show ?thesis by (simp add: no_regress_def same_status_def)
qed

lemma nodes_ok_keeps:
  assumes "keeps R b b'" and "\<And>x y. R x y \<Longrightarrow> core_inv x \<Longrightarrow> core_inv y" and "nodes_ok b"
  shows "nodes_ok b'"
  unfolding nodes_ok_def
proof (intro allI impI)
  fix k n' assume "map_of (interests b') k = Some n'"
  from keepsD [OF assms(1) this] obtain n where "map_of (interests b) k = Some n" "R n n'" by blast
  moreover from this(1) assms(3) have "core_inv n" by (simp add: nodes_ok_def)
  ultimately show "core_inv n'" by (blast intro: assms(2))
qed

lemma keeps_settle:
  assumes "keeps same_status b b1" and "config b1 = config b"
  shows "keeps (settle (config b)) b (updateCoreStatus b1)"
proof (rule keepsI)
  fix k n' assume "map_of (interests (updateCoreStatus b1)) k = Some n'"
  then obtain m where m: "map_of (interests b1) k = Some m" "n' = update_core (config b) m"
    by (auto simp: map_of_update_core assms(2))
  from keepsD [OF assms(1) m(1)] obtain n where "map_of (interests b) k = Some n" "same_status n m"
    by blast
  with m(2) show "\<exists>n. map_of (interests b) k = Some n \<and> settle (config b) n n'"
    unfolding settle_def by blast
qed

lemma keeps_decayed:
  "keeps same_status b (b\<lparr> interests := map (\<lambda>(t, node). (t, decay_node (config b) now node)) (interests b) \<rparr>)"
  by (auto simp: keeps_def map_of_map_values decay_node_def same_status_def)

lemma applyDecay_unfold:
  "applyDecay now b = updateCoreStatus (fold removeInterest
      (map fst (filter (\<lambda>(t, node). weight node < minWeight (config b))
         (map (\<lambda>(t, node). (t, decay_node (config b) now node)) (interests b))))
      (b\<lparr> interests := map (\<lambda>(t, node). (t, decay_node (config b) now node)) (interests b) \<rparr>))"
  by (simp add: applyDecay_def Let_def)

lemma keeps_updateCoreStatus: "keeps (settle (config b)) b (updateCoreStatus b)"
  by (rule keeps_settle) (simp_all add: keeps_refl)

lemma keeps_applyDecay: "keeps (settle (config b)) b (applyDecay now b)"
proof -
  let ?b0 = "b\<lparr> interests := map (\<lambda>(t, node). (t, decay_node (config b) now node)) (interests b) \<rparr>"
  let ?ts = "map fst (filter (\<lambda>(t, node). weight node < minWeight (config b))
         (map (\<lambda>(t, node). (t, decay_node (config b) now node)) (interests b)))"
  have "keeps same_status ?b0 (fold removeInterest ?ts ?b0)"
    by (rule keeps_mono [OF keeps_fold_removeInterest only_connections_status])
  with keeps_decayed have k: "keeps same_status b (fold removeInterest ?ts ?b0)"
    by (rule keeps_status_trans)
  have c: "config (fold removeInterest ?ts ?b0) = config b" by simp
  show ?thesis
    unfolding applyDecay_unfold by (rule keeps_settle [OF k c])
qed

lemma keys_decayed:
  "map fst (map (\<lambda>(t, node). (t, decay_node cfg now node)) g) = map fst g"
  by (induction g) auto

lemma distinct_applyDecay:
  assumes "distinct (map fst (interests b))"
  shows "distinct (map fst (interests (applyDecay now b)))"
proof -
  let ?b0 = "b\<lparr> interests := map (\<lambda>(t, node). (t, decay_node (config b) now node)) (interests b) \<rparr>"
  from assms have "distinct (map fst (interests ?b0))" by (simp add: keys_decayed del: map_map)
  then have "distinct (map fst (interests (fold removeInterest ts ?b0)))" for ts
    by (rule distinct_fold_removeInterest)
  then show ?thesis
    unfolding applyDecay_unfold by (simp only: keys_updateCoreStatus)
qed

lemma settle_pre: "same_status n m \<Longrightarrow> settle cfg m n' \<Longrightarrow> settle cfg n n'"
  unfolding settle_def by (blast intro: same_status_trans)

lemma config_connect_step [simp]: "config (connect_step now t other b) = config b"
  by (simp add: connect_step_def Let_def)

lemma config_fold_connect [simp]: "config (fold (connect_step now t) ks b) = config b"
  by (induction ks arbitrary: b) simp_all

lemma config_findAndCreateConnections [simp]: "config (findAndCreateConnections now t b) = config b"
  by (simp add: findAndCreateConnections_def split: option.splits)

lemma keeps_findAndCreateConnections: "keeps same_status b (findAndCreateConnections now t b)"
  by (simp add: findAndCreateConnections_def keeps_refl keeps_fold_connect split: option.splits)

lemma keys_findAndCreateConnections [simp]:
  "map fst (interests (findAndCreateConnections now t b)) = map fst (interests b)"
  by (simp add: findAndCreateConnections_def split: option.splits)

lemma keeps_removeInterest_status: "keeps same_status b (removeInterest t b)"
  by (rule keeps_mono [OF keeps_removeInterest only_connections_status])

lemma keeps_removeWeakestInterest: "keeps same_status b (removeWeakestInterest b)"
  by (simp add: removeWeakestInterest_def keeps_refl keeps_removeInterest_status split: option.splits)

lemma config_removeWeakestInterest [simp]: "config (removeWeakestInterest b) = config b"
  by (simp add: removeWeakestInterest_def split: option.splits)

lemma distinct_removeWeakestInterest:
  "distinct (map fst (interests b)) \<Longrightarrow> distinct (map fst (interests (removeWeakestInterest b)))"
  by (simp add: removeWeakestInterest_def distinct_removeInterest split: option.splits)

lemma keys_removeWeakestInterest_subset:
  "set (map fst (interests (removeWeakestInterest b))) \<subseteq> set (map fst (interests b))"
  using keys_removeInterest_subset
  by (simp add: removeWeakestInterest_def split: option.splits)

lemma keeps_room: "keeps same_status b (room b)"
  by (simp add: room_def keeps_refl keeps_removeWeakestInterest)

lemma config_room [simp]: "config (room b) = config b"
  by (simp add: room_def)

lemma distinct_room: "distinct (map fst (interests b)) \<Longrightarrow> distinct (map fst (interests (room b)))"
  by (simp add: room_def distinct_removeWeakestInterest)

lemma keys_room_subset: "set (map fst (interests (room b))) \<subseteq> set (map fst (interests b))"
  using keys_removeWeakestInterest_subset by (simp add: room_def)

lemma addInterest_fresh:
  assumes "map_of (interests b) (trim (toLowerCase tp)) = None"
  shows "addInterest now tp s b =
           updateCoreStatus (findAndCreateConnections now (trim (toLowerCase tp))
             ((room b)\<lparr> interests := interests (room b)
                 @ [(trim (toLowerCase tp), createInterestNode (config b) now tp None)] \<rparr>))"
  using assms by (simp add: addInterest_def Let_def room_def)

lemma addInterest_nodes:
  assumes look: "map_of (interests (addInterest now tp s b)) k = Some n'"
  shows "(\<exists>n. map_of (interests b) k = Some n \<and> settle (config b) n n')
         \<or> (map_of (interests b) k = None \<and> k = trim (toLowerCase tp)
            \<and> settle (config b) (createInterestNode (config b) now tp None) n')"
proof (cases "map_of (interests b) (trim (toLowerCase tp))")
  case (Some node)
  have "keeps (settle (config b)) b (addInterest now tp s b)"
    unfolding addInterest_existing [OF Some]
    by (rule keeps_settle [OF keeps_reinforceInterest]) simp
  from keepsD [OF this look] show ?thesis by blast
next
  case None
  let ?nk = "trim (toLowerCase tp)"
  let ?node = "createInterestNode (config b) now tp None"
  let ?b3 = "(room b)\<lparr> interests := interests (room b) @ [(?nk, ?node)] \<rparr>"
  have "keeps (settle (config ?b3)) ?b3 (addInterest now tp s b)"
    unfolding addInterest_fresh [OF None]
    by (rule keeps_settle [OF keeps_findAndCreateConnections]) simp
  then have k3: "keeps (settle (config b)) ?b3 (addInterest now tp s b)" by simp
  from keepsD [OF k3 look] obtain n3
    where n3: "map_of (interests ?b3) k = Some n3" "settle (config b) n3 n'" by blast
  show ?thesis
  proof (cases "map_of (interests (room b)) k")
    case (Some n2)
    with n3(1) have "n3 = n2" by (simp add: map_add_def)
    from keepsD [OF keeps_room Some] obtain n where n: "map_of (interests b) k = Some n" "same_status n n2"
      by blast
    from settle_pre [OF n(2)] n3(2) \<open>n3 = n2\<close> have "settle (config b) n n'" by simp
    with n(1) show ?thesis by blast
  next
    case nothing: None
    with n3(1) have eq: "k = ?nk" "n3 = ?node"
      by (auto simp: map_add_def split: if_splits)
    with None n3(2) show ?thesis by simp
  qed
qed

lemma distinct_addInterest:
  assumes "distinct (map fst (interests b))"
  shows "distinct (map fst (interests (addInterest now tp s b)))"
proof (cases "map_of (interests b) (trim (toLowerCase tp))")
  case (Some node)
  show ?thesis unfolding addInterest_existing [OF Some] using assms by simp
next
  case None
  then have "trim (toLowerCase tp) \<notin> set (map fst (interests b))"
    by (simp add: map_of_eq_None_iff)
  with keys_room_subset [of b] have "trim (toLowerCase tp) \<notin> set (map fst (interests (room b)))"
    by blast
  with distinct_room [OF assms] show ?thesis
    unfolding addInterest_fresh [OF None] by simp
qed

lemma promoted_rel_trans: "promoted_rel x y \<Longrightarrow> promoted_rel y z \<Longrightarrow> promoted_rel x z"
  by (auto simp: promoted_rel_def)

lemma no_regress_promoted: "promoted_rel n n' \<Longrightarrow> no_regress n n'"
  by (auto simp: promoted_rel_def no_regress_def)

lemma keeps_promote: "keeps promoted_rel b (fst (promoteToLongTerm now key (b, m)))"
  by (auto simp: promoteToLongTerm_def Let_def keeps_def map_of_map_entry_eq promoted_rel_def
      split: option.splits if_splits)

lemma keeps_consolidate_step:
  "keeps promoted_rel b (fst (snd (consolidate_step now key (res, b, m))))"
proof (cases "map_of (interests b) key")
  case None
  then show ?thesis by (simp add: consolidate_step_def keeps_refl promoted_rel_def)
next
  case (Some interest)
  then show ?thesis
    by (simp add: consolidate_step_def Let_def keeps_promote keeps_refl promoted_rel_def)
qed

lemma keeps_consolidate_fold:
  "keeps promoted_rel b (fst (snd (fold (consolidate_step now) ks (res, b, m))))"
proof (induction ks arbitrary: res b m)
  case Nil
  show ?case by (simp add: keeps_refl promoted_rel_def)
next
  case (Cons key ks)
  obtain res1 b1 m1 where st: "consolidate_step now key (res, b, m) = (res1, b1, m1)"
    by (cases "consolidate_step now key (res, b, m)") auto
  have "keeps promoted_rel b b1"
    using keeps_consolidate_step [of b now key res m] by (simp add: st)
  from keeps_trans [OF this Cons.IH [of b1 res1 m1] promoted_rel_trans]
  show ?case by (simp add: st)
qed

lemma consolidate_brain:
  assumes "consolidate now (Some b) m = (res, Some b', m')"
  shows "b' = fst (snd (fold (consolidate_step now)
                 (map fst (filter (\<lambda>(t, node). memoryType node = ShortTerm) (interests b)))
                 (\<lparr> promoted = [], forgotten = [], clustered = [], timestamp = Some now \<rparr>, b, m)))"
  using assms by (auto simp: consolidate_def Let_def)

lemma keeps_consolidate:
  assumes "consolidate now (Some b) m = (res, Some b', m')"
  shows "keeps promoted_rel b b'"
  unfolding consolidate_brain [OF assms] by (rule keeps_consolidate_fold)

lemma nodes_ok_promote:
  assumes "nodes_ok b" and "\<And>n. map_of (interests b) key = Some n \<Longrightarrow> memoryType n = ShortTerm"
  shows "nodes_ok (fst (promoteToLongTerm now key (b, m)))"
proof (cases "map_of (interests b) key")
  case None
  with assms(1) show ?thesis by (simp add: promoteToLongTerm_def)
next
  case (Some node)
  from assms(2) [OF Some] have st: "memoryType node = ShortTerm" .
  from assms(1) Some have "core_inv node" by (simp add: nodes_ok_def)
  with st have nc: "\<not> isCore node" by (auto simp: core_inv_def)
  have new: "core_inv (node\<lparr> memoryType := LongTerm, promotedAt := Some now \<rparr>)"
    using nc by (simp add: core_inv_def)
  show ?thesis
    unfolding nodes_ok_def
  proof (intro allI impI)
    fix k n assume "map_of (interests (fst (promoteToLongTerm now key (b, m)))) k = Some n"
    then have "(k = key \<and> n = node\<lparr> memoryType := LongTerm, promotedAt := Some now \<rparr>)
               \<or> map_of (interests b) k = Some n"
      using Some by (auto simp: promoteToLongTerm_def Let_def map_of_map_entry_eq split: if_splits)
    with new assms(1) show "core_inv n" by (auto simp: nodes_ok_def)
  qed
qed

lemma nodes_ok_consolidate_step:
  assumes "nodes_ok b" and "\<And>n. map_of (interests b) key = Some n \<Longrightarrow> memoryType n = ShortTerm"
  shows "nodes_ok (fst (snd (consolidate_step now key (res, b, m))))"
proof (cases "map_of (interests b) key")
  case None
  with assms(1) show ?thesis by (simp add: consolidate_step_def)
next
  case (Some interest)
  have "nodes_ok (fst (promoteToLongTerm now key (b, m)))"
    by (rule nodes_ok_promote [OF assms(1)]) (rule assms(2))
  with Some assms(1) show ?thesis
    by (simp add: consolidate_step_def Let_def)
qed

lemma consolidate_step_other:
  "k \<noteq> key \<Longrightarrow>
     map_of (interests (fst (snd (consolidate_step now key (res, b, m))))) k = map_of (interests b) k"
  by (simp add: consolidate_step_def Let_def promote_other split: option.splits)

lemma nodes_ok_consolidate_fold:
  assumes "distinct ks" and "nodes_ok b"
      and "\<And>k n. k \<in> set ks \<Longrightarrow> map_of (interests b) k = Some n \<Longrightarrow> memoryType n = ShortTerm"
  shows "nodes_ok (fst (snd (fold (consolidate_step now) ks (res, b, m))))"
  using assms
proof (induction ks arbitrary: res b m)
  case Nil
  then show ?case by simp
next
  case (Cons key ks)
  obtain res1 b1 m1 where st: "consolidate_step now key (res, b, m) = (res1, b1, m1)"
    by (cases "consolidate_step now key (res, b, m)") auto
  have "nodes_ok (fst (snd (consolidate_step now key (res, b, m))))"
    by (rule nodes_ok_consolidate_step [OF Cons.prems(2)]) (auto intro: Cons.prems(3) [of key])
  then have ok1: "nodes_ok b1" by (simp add: st)
  have rest: "memoryType n = ShortTerm" if "k \<in> set ks" "map_of (interests b1) k = Some n" for k n
  proof -
    from that(1) Cons.prems(1) have "k \<noteq> key" by auto
    from consolidate_step_other [OF this, where now = now and res = res and b = b and m = m] that(2)
    have "map_of (interests b) k = Some n" by (simp add: st)
    with Cons.prems(3) [of k n] that(1) show ?thesis by simp
  qed
  from Cons.prems(1) have "distinct ks" by simp
  from Cons.IH [OF this ok1 rest, where res = res1 and m = m1] show ?case by (simp add: st)
qed

lemma nodes_ok_consolidate:
  assumes run: "consolidate now (Some b) m = (res, Some b', m')" and inv: "brain_inv b"
  shows "nodes_ok b'"
proof -
  let ?ks = "map fst (filter (\<lambda>(t, node). memoryType node = ShortTerm) (interests b))"
  from inv have d: "distinct (map fst (interests b))" and ok: "nodes_ok b"
    by (simp_all add: brain_inv_def)
  from d have dk: "distinct ?ks" by (rule distinct_map_filter)
  have st: "memoryType n = ShortTerm" if "k \<in> set ?ks" "map_of (interests b) k = Some n" for k n
  proof -
    from that(1) obtain n0 where "(k, n0) \<in> set (interests b)" "memoryType n0 = ShortTerm"
      by auto
    moreover from that(2) have "(k, n) \<in> set (interests b)" by (rule map_of_SomeD)
    ultimately show ?thesis using d by (auto dest: eq_key_imp_eq_value)
  qed
  show ?thesis
    unfolding consolidate_brain [OF run] by (rule nodes_ok_consolidate_fold [OF dk ok st])
qed

lemma keys_consolidate:
  assumes "consolidate now (Some b) m = (res, Some b', m')"
  shows "map fst (interests b') = map fst (interests b)"
  unfolding consolidate_brain [OF assms] by (rule consolidate_fold_keys)

lemma update_core_hysteresis:
  assumes "core_inv m"
  shows "(coreThreshold cfg \<le> weight m \<longrightarrow> memoryType (update_core cfg m) = Core)
         \<and> (memoryType m = Core \<and> weight m < coreThreshold cfg
              \<longrightarrow> memoryType (update_core cfg m) = LongTerm)"
  using assms by (auto simp: update_core_def Let_def core_inv_def)

lemma settle_hysteresis:
  assumes "settle cfg n n'" and "core_inv n"
  shows "(coreThreshold cfg \<le> weight n' \<longrightarrow> memoryType n' = Core)
         \<and> (memoryType n = Core \<and> weight n' < coreThreshold cfg \<longrightarrow> memoryType n' = LongTerm)"
proof -
  from assms(1) obtain m where m: "same_status n m" "n' = update_core cfg m"
    unfolding settle_def by blast
  from m(1) assms(2) have cm: "core_inv m" by (rule core_inv_same_status)
  from m(1) have mt: "memoryType m = memoryType n" by (simp add: same_status_def)
  have w: "weight n' = weight m" unfolding m(2) by simp
  from update_core_hysteresis [OF cm, of cfg] show ?thesis
    unfolding m(2) [symmetric] w [symmetric] mt by blast
qed

lemma core_inv_created: "core_inv (createInterestNode cfg now tp w)"
  by (simp add: core_inv_def createInterestNode_def)

lemma brain_inv_step:
  assumes "brain_step b b'" and "brain_inv b"
  shows "brain_inv b'"
  using assms
proof (cases rule: brain_step.cases)
  case (step_add now tp s)
  from assms(2) have d: "distinct (map fst (interests b))" and ok: "nodes_ok b"
    by (simp_all add: brain_inv_def)
  have "nodes_ok (addInterest now tp s b)"
    unfolding nodes_ok_def
  proof (intro allI impI)
    fix k n' assume "map_of (interests (addInterest now tp s b)) k = Some n'"
    from addInterest_nodes [OF this] ok show "core_inv n'"
      by (auto simp: nodes_ok_def intro: core_inv_settle core_inv_created)
  qed
  with distinct_addInterest [OF d] show ?thesis by (simp add: step_add brain_inv_def)
next
  case (step_reinforce now t s)
  from assms(2) nodes_ok_keeps [OF keeps_reinforceInterest core_inv_same_status]
  show ?thesis by (simp add: step_reinforce brain_inv_def)
next
  case (step_decay now)
  from assms(2) nodes_ok_keeps [OF keeps_applyDecay core_inv_settle] distinct_applyDecay
  show ?thesis by (simp add: step_decay brain_inv_def)
next
  case (step_remove t)
  from assms(2) nodes_ok_keeps [OF keeps_removeInterest_status core_inv_same_status]
    distinct_removeInterest
  show ?thesis by (simp add: step_remove brain_inv_def)
next
  case (step_consolidate now m res m')
  from nodes_ok_consolidate [OF step_consolidate assms(2)] keys_consolidate [OF step_consolidate]
    assms(2)
  show ?thesis by (simp add: brain_inv_def)
next
  case (step_dream now rnd k ex d res d' k')
  from dream_kept_dream [OF step_dream]
  have k: "keeps same_status b b'" and e: "map fst (interests b') = map fst (interests b)"
    by (simp_all add: dream_kept_def)
  from assms(2) nodes_ok_keeps [OF k core_inv_same_status] e
  show ?thesis by (simp add: brain_inv_def)
qed

lemma reachable_inv: "reachable b \<Longrightarrow> brain_inv b"
proof (induction rule: reachable.induct)
  case (reachable_init b)
  then show ?case by (simp add: brain_inv_def nodes_ok_def)
next
  case (reachable_step b b')
  from brain_inv_step [OF reachable_step(2) reachable_step(3)] show ?case .
qed

lemma step_no_regress:
  assumes "brain_step b b'" and "map_of (interests b) t = Some n"
      and "map_of (interests b') t = Some n'"
  shows "no_regress n n'"
  using assms(1)
proof (cases rule: brain_step.cases)
  case (step_add now tp s)
  from addInterest_nodes [OF assms(3) [unfolded step_add]] assms(2)
  show ?thesis by (auto intro: no_regress_settle)
next
  case (step_reinforce now t' s)
  from keepsD [OF keeps_reinforceInterest assms(3) [unfolded step_reinforce]] assms(2)
  show ?thesis by (auto intro: no_regress_same_status)
next
  case (step_decay now)
  from keepsD [OF keeps_applyDecay assms(3) [unfolded step_decay]] assms(2)
  show ?thesis by (auto intro: no_regress_settle)
next
  case (step_remove t')
  from keepsD [OF keeps_removeInterest_status assms(3) [unfolded step_remove]] assms(2)
  show ?thesis by (auto intro: no_regress_same_status)
next
  case (step_consolidate now m res m')
  from keepsD [OF keeps_consolidate [OF step_consolidate] assms(3)] assms(2)
  show ?thesis by (auto intro: no_regress_promoted)
next
  case (step_dream now rnd k ex d res d' k')
  from dream_kept_dream [OF step_dream] have "keeps same_status b b'" by (simp add: dream_kept_def)
  from keepsD [OF this assms(3)] assms(2)
  show ?thesis by (auto intro: no_regress_same_status)
qed

text \<open>
  Claim C3, amended. In every state reachable by the operations and for every node of it:
  the re-evaluation of the core status, \<open>updateCoreStatus\<close>, gives a node whose weight has
  reached \<open>coreThreshold\<close> the type \<open>Core\<close> and takes a \<open>Core\<close> node whose weight is below the
  threshold to \<open>LongTerm\<close>; the same holds for the node after a decay tick and after
  \<open>addInterest\<close>, which end with that re-evaluation; and no operation (adding, reinforcing,
  decay, removal of another node, consolidation, dreaming) takes a node from \<open>Core\<close> to
  \<open>ShortTerm\<close>.
\<close>

theorem core_hysteresis:
  assumes reach: "reachable b" and look: "map_of (interests b) t = Some n"
  shows
   "(\<exists>n'. map_of (interests (updateCoreStatus b)) t = Some n'
        \<and> (coreThreshold (config b) \<le> weight n \<longrightarrow> memoryType n' = Core)
        \<and> (memoryType n = Core \<and> weight n < coreThreshold (config b)
             \<longrightarrow> memoryType n' = LongTerm))
    \<and> (\<forall>b' n'. ((\<exists>now. b' = applyDecay now b) \<or> (\<exists>now tp s. b' = addInterest now tp s b))
              \<and> map_of (interests b') t = Some n'
           \<longrightarrow> (coreThreshold (config b) \<le> weight n' \<longrightarrow> memoryType n' = Core)
             \<and> (memoryType n = Core \<and> weight n' < coreThreshold (config b)
                  \<longrightarrow> memoryType n' = LongTerm))
    \<and> (\<forall>b' n'. brain_step b b' \<and> map_of (interests b') t = Some n' \<and> memoryType n = Core
           \<longrightarrow> memoryType n' \<noteq> ShortTerm)"
proof (intro conjI allI impI)
  from reachable_inv [OF reach] look have ci: "core_inv n"
    by (simp add: brain_inv_def nodes_ok_def)
  from update_core_hysteresis [OF ci, of "config b"] look
  show "\<exists>n'. map_of (interests (updateCoreStatus b)) t = Some n'
        \<and> (coreThreshold (config b) \<le> weight n \<longrightarrow> memoryType n' = Core)
        \<and> (memoryType n = Core \<and> weight n < coreThreshold (config b)
             \<longrightarrow> memoryType n' = LongTerm)"
    by (simp add: map_of_update_core)
  {
    fix b' n'
    assume a: "((\<exists>now. b' = applyDecay now b) \<or> (\<exists>now tp s. b' = addInterest now tp s b))
              \<and> map_of (interests b') t = Some n'"
    have "settle (config b) n n'"
    proof -
      from a consider now where "b' = applyDecay now b"
        | now tp s where "b' = addInterest now tp s b" by blast
      then show ?thesis
      proof cases
        case 1
        from a have "map_of (interests (applyDecay now b)) t = Some n'" by (simp add: 1)
        from keepsD [OF keeps_applyDecay this] look show ?thesis by simp
      next
        case 2
        from a have "map_of (interests (addInterest now tp s b)) t = Some n'" by (simp add: 2)
        from addInterest_nodes [OF this] look show ?thesis by simp
      qed
    qed
    from settle_hysteresis [OF this ci]
    have h: "(coreThreshold (config b) \<le> weight n' \<longrightarrow> memoryType n' = Core)
         \<and> (memoryType n = Core \<and> weight n' < coreThreshold (config b) \<longrightarrow> memoryType n' = LongTerm)" .
    {
      assume "coreThreshold (config b) \<le> weight n'"
      with h show "memoryType n' = Core" by blast
    }
    {
      assume "memoryType n = Core \<and> weight n' < coreThreshold (config b)"
      with h show "memoryType n' = LongTerm" by blast
    }
  }
  {
    fix b' n'
    assume a: "brain_step b b' \<and> map_of (interests b') t = Some n' \<and> memoryType n = Core"
    then have "no_regress n n'" using look by (blast intro: step_no_regress)
    with a show "memoryType n' \<noteq> ShortTerm" by (auto simp: no_regress_def)
  }
qed

lemma core_lookup:
  "map_of (interests core_brain) ''machine learning''
     = Some (ml_node\<lparr> weight := 17 / 20, lastActive := 3000, accessCount := 2, isCore := True,
                     memoryType := Core \<rparr>)"
  by code_simp

lemma core_config: "config core_brain = default_brain_config"
  by code_simp

lemma core_decayed_weight:
  "map_option weight (map_of (interests (applyDecay 23000 core_brain)) ''machine learning'')
     = Some (13 / 20)"
  by code_simp

lemma reachable_core_brain: "reachable core_brain"
  unfolding core_brain_def demo_brain_def
  by (intro reachable_step [OF _ step_add] reachable_init) (simp add: new_brain_def)

theorem core_hysteresis_witness:
  "reachable core_brain
   \<and> (\<exists>n. map_of (interests core_brain) ''machine learning'' = Some n
          \<and> memoryType n = Core \<and> weight n = 17 / 20)
   \<and> (\<exists>n'. map_of (interests (applyDecay 23000 core_brain)) ''machine learning'' = Some n'
          \<and> weight n' = 13 / 20 \<and> memoryType n' = LongTerm)"
proof -
  let ?n = "ml_node\<lparr> weight := 17 / 20, lastActive := 3000, accessCount := 2, isCore := True,
                     memoryType := Core \<rparr>"
  from core_decayed_weight obtain n'
    where n': "map_of (interests (applyDecay 23000 core_brain)) ''machine learning'' = Some n'"
      "weight n' = 13 / 20" by auto
  from core_hysteresis [OF reachable_core_brain core_lookup] n'(1)
  have "memoryType ?n = Core \<and> weight n' < coreThreshold (config core_brain)
          \<longrightarrow> memoryType n' = LongTerm"
    by blast
  then have "memoryType n' = LongTerm"
    by (simp add: n'(2) core_config default_brain_config_def)
  with n' reachable_core_brain core_lookup show ?thesis by simp
qed

text \<open>
  A weight at or above the threshold does not make a node \<open>Core\<close> in every reachable state:
  a dream session raises the weights of the nodes it connects and does not re-evaluate the
  core status. In the graph of four topics the node ``machine learning'' has weight 11/20;
  after one dream session it has weight 1, above the threshold 7/10, and is still
  \<open>ShortTerm\<close>.
\<close>

lemma dreamt_run:
  "(case dream_brain (dream 5000 half_rnd 0 None new_dreamer (Some four_brain)) of
      None \<Rightarrow> False
    | Some b \<Rightarrow>
        map_option weight (map_of (interests b) ''machine learning'') = Some 1
        \<and> map_option isCore (map_of (interests b) ''machine learning'') = Some False
        \<and> map_option memoryType (map_of (interests b) ''machine learning'') = Some ShortTerm
        \<and> coreThreshold (config b) = 7 / 10)"
  by code_simp

lemma four_weight:
  "map_option weight (map_of (interests four_brain) ''machine learning'') = Some (11 / 20)
   \<and> map_option memoryType (map_of (interests four_brain) ''machine learning'') = Some ShortTerm"
  by code_simp

lemma reachable_four_brain: "reachable four_brain"
  unfolding four_brain_def demo_brain_def
  by (intro reachable_step [OF _ step_add] reachable_init) (simp add: new_brain_def)

theorem dream_core_counterexample:
  "reachable four_brain \<and> brain_step four_brain dreamt_brain \<and> reachable dreamt_brain
   \<and> map_option weight (map_of (interests four_brain) ''machine learning'') = Some (11 / 20)
   \<and> map_option weight (map_of (interests dreamt_brain) ''machine learning'') = Some 1
   \<and> coreThreshold (config dreamt_brain) = 7 / 10
   \<and> map_option isCore (map_of (interests dreamt_brain) ''machine learning'') = Some False
   \<and> map_option memoryType (map_of (interests dreamt_brain) ''machine learning'') = Some ShortTerm"
proof -
  let ?r = "dream 5000 half_rnd 0 None new_dreamer (Some four_brain)"
  from dreamt_run obtain b where b: "dream_brain ?r = Some b"
    and facts: "map_option weight (map_of (interests b) ''machine learning'') = Some 1"
      "map_option isCore (map_of (interests b) ''machine learning'') = Some False"
      "map_option memoryType (map_of (interests b) ''machine learning'') = Some ShortTerm"
      "coreThreshold (config b) = 7 / 10"
    by (cases "dream_brain ?r") simp_all
  from b have eq: "dreamt_brain = b" by (simp add: dreamt_brain_def)
  from b obtain res d' k' where run: "?r = Inr (res, d', Some b, k')"
    by (auto simp: dream_brain_def split: sum.splits prod.splits)
  from run have step: "brain_step four_brain b" by (rule step_dream)
  from reachable_four_brain step have re: "reachable b" by (rule reachable_step)
  from reachable_four_brain step re four_weight facts show ?thesis
    unfolding eq by (intro conjI) simp_all
qed

end
